theory Spec2Isabelle
  imports Complex_Main
begin

section \<open>Values exchanged with the upstream feed and the sink\<close>

text \<open>
  The program \<^verbatim>\<open>wb_orders_sync.py\<close> handles decoded JSON: an upstream record is a
  Python dict as \<^verbatim>\<open>r.json()\<close> returns it, a sink row is the dict that
  \<^verbatim>\<open>transform_wb_orders\<close> builds. A dict is an association list; a key is looked up
  with \<open>map_of\<close>. Python's \<^verbatim>\<open>None\<close> is \<open>JNull\<close>.
\<close>

datatype json =
    JNull
  | JBool bool
  | JInt int
  | JFloat rat
  | JStr string
  | JList "json list"
  | JObj "(string \<times> json) list"

text \<open>The exceptions that the program can raise; none of them is caught, except
  \<open>RequestException\<close> inside \<^verbatim>\<open>wb_request\<close>.\<close>

datatype error =
    KeyError string
  | TypeError
  | AttributeError
  | ValueError
  | OverflowError
  | HTTPError int
  | RequestException

text \<open>Python's truth value of a decoded JSON value (\<^verbatim>\<open>if x\<close>, \<^verbatim>\<open>not x\<close>).\<close>

fun truthy :: "json \<Rightarrow> bool" where
  "truthy JNull = False"
| "truthy (JBool b) = b"
| "truthy (JInt i) = (i \<noteq> 0)"
| "truthy (JFloat q) = (q \<noteq> 0)"
| "truthy (JStr s) = (s \<noteq> [])"
| "truthy (JList xs) = (xs \<noteq> [])"
| "truthy (JObj kvs) = (kvs \<noteq> [])"

text \<open>\<^verbatim>\<open>o[key]\<close> with a string key: \<^verbatim>\<open>KeyError\<close> on a dict without the key,
  \<^verbatim>\<open>TypeError\<close> on any value that is not a dict.\<close>

fun subscript :: "json \<Rightarrow> string \<Rightarrow> error + json" where
  "subscript (JObj kvs) k = (case map_of kvs k of None \<Rightarrow> Inl (KeyError k) | Some v \<Rightarrow> Inr v)"
| "subscript _ k = Inl TypeError"

text \<open>\<^verbatim>\<open>o.get(key)\<close>: \<^verbatim>\<open>None\<close> for a missing key; only a dict has the method.\<close>

fun get :: "json \<Rightarrow> string \<Rightarrow> error + json" where
  "get (JObj kvs) k = (case map_of kvs k of None \<Rightarrow> Inr JNull | Some v \<Rightarrow> Inr v)"
| "get _ k = Inl AttributeError"

section \<open>Time\<close>

subsection \<open>The proleptic Gregorian calendar of \<^verbatim>\<open>datetime\<close>\<close>

text \<open>
  A \<^verbatim>\<open>datetime\<close> is a point of the proleptic Gregorian calendar between
  0001-01-01T00:00:00 and 9999-12-31T23:59:59.999999, with microsecond resolution, and
  an optional \<^verbatim>\<open>tzinfo\<close>. The model stores the calendar point as the number of
  microseconds since 0001-01-01T00:00:00 (\<open>ticks\<close>); the calendar fields are computed
  from it where a string is formatted, and define it where a string is parsed.
\<close>

definition is_leap :: "int \<Rightarrow> bool" where
  "is_leap y = (y mod 4 = 0 \<and> (y mod 100 \<noteq> 0 \<or> y mod 400 = 0))"

definition days_in_month :: "int \<Rightarrow> int \<Rightarrow> int" where
  "days_in_month y m =
     (if m = 2 then (if is_leap y then 29 else 28)
      else if m = 4 \<or> m = 6 \<or> m = 9 \<or> m = 11 then 30 else 31)"

definition days_before_year :: "int \<Rightarrow> int" where
  "days_before_year y = (y - 1) * 365 + (y - 1) div 4 - (y - 1) div 100 + (y - 1) div 400"

definition days_before_month :: "int \<Rightarrow> int \<Rightarrow> int" where
  "days_before_month y m =
     (if m \<le> 1 then 0 else if m = 2 then 31
      else (if is_leap y then 1 else 0) +
        (if m = 3 then 59 else if m = 4 then 90 else if m = 5 then 120
         else if m = 6 then 151 else if m = 7 then 181 else if m = 8 then 212
         else if m = 9 then 243 else if m = 10 then 273 else if m = 11 then 304
         else if m = 12 then 334 else 365))"

text \<open>The ordinal of a date: 0001-01-01 is day 1.\<close>

definition ymd2ord :: "int \<Rightarrow> int \<Rightarrow> int \<Rightarrow> int" where
  "ymd2ord y m d = days_before_year y + days_before_month y m + d"

function year_from :: "int \<Rightarrow> int \<Rightarrow> int" where
  "year_from n y = (if n \<le> days_before_year (y + 1) then y else year_from n (y + 1))"
  by pat_completeness auto
termination
proof (relation "measure (\<lambda>(n, y). nat (n - days_before_year (y + 1)))")
  show "wf (measure (\<lambda>(n, y). nat (n - days_before_year (y + 1))))"
    by simp
next
  fix n y :: int
  assume "\<not> n \<le> days_before_year (y + 1)"
  moreover have "days_before_year (y + 1) < days_before_year (y + 1 + 1)"
    unfolding days_before_year_def by simp
  ultimately show "((n, y + 1), (n, y)) \<in> measure (\<lambda>(n, y). nat (n - days_before_year (y + 1)))"
    by simp
qed

declare year_from.simps [simp del]

text \<open>The year of an ordinal: the search starts at a year that is never too late,
  since no year has more than 366 days.\<close>

definition year_of :: "int \<Rightarrow> int" where
  "year_of n = year_from n ((n - 1) div 366 + 1)"

text \<open>The month of the \<open>k\<close>-th day (from 1) of year \<open>y\<close>.\<close>

definition month_of :: "int \<Rightarrow> int \<Rightarrow> int" where
  "month_of y k =
     (if k \<le> days_before_month y 2 then 1 else if k \<le> days_before_month y 3 then 2
      else if k \<le> days_before_month y 4 then 3 else if k \<le> days_before_month y 5 then 4
      else if k \<le> days_before_month y 6 then 5 else if k \<le> days_before_month y 7 then 6
      else if k \<le> days_before_month y 8 then 7 else if k \<le> days_before_month y 9 then 8
      else if k \<le> days_before_month y 10 then 9 else if k \<le> days_before_month y 11 then 10
      else if k \<le> days_before_month y 12 then 11 else 12)"

definition ord2ymd :: "int \<Rightarrow> int \<times> int \<times> int" where
  "ord2ymd n =
     (let y = year_of n; k = n - days_before_year y; m = month_of y k
      in (y, m, k - days_before_month y m))"

definition us_per_second :: int where
  "us_per_second = 1000000"

definition us_per_day :: int where
  "us_per_day = 86400000000"

text \<open>\<^verbatim>\<open>datetime.max\<close> is 9999-12-31T23:59:59.999999: day 3652059 is the last one.\<close>

definition max_ticks :: int where
  "max_ticks = 3652059 * 86400000000"

definition in_range :: "int \<Rightarrow> bool" where
  "in_range t = (0 \<le> t \<and> t < max_ticks)"

subsection \<open>Time zones\<close>

text \<open>
  The program uses three kinds of \<^verbatim>\<open>tzinfo\<close>: \<^verbatim>\<open>timezone.utc\<close>, the constant
  \<^verbatim>\<open>MSK = ZoneInfo("Europe/Moscow")\<close>, and the fixed offsets that the parser attaches to
  a string with an offset suffix. The rules of Europe/Moscow come from the time zone
  database of the machine, which is not part of the repository: they are a parameter,
  the two lookups a \<^verbatim>\<open>ZoneInfo\<close> offers. Offsets are in seconds, times in microseconds.
\<close>

record zone =
  utcoffset_wall :: "int \<Rightarrow> int"
    \<comment> \<open>\<^verbatim>\<open>utcoffset\<close> of a wall-clock time of the zone (\<^verbatim>\<open>fold = 0\<close>)\<close>
  utcoffset_utc :: "int \<Rightarrow> int"
    \<comment> \<open>the offset in force at a UTC instant, which \<^verbatim>\<open>fromutc\<close> adds\<close>

text \<open>The rule of Europe/Moscow in force since 2014-10-26: UTC+03:00, no daylight saving.\<close>

definition moscow_utc3 :: zone where
  "moscow_utc3 = \<lparr>utcoffset_wall = (\<lambda>t. 10800), utcoffset_utc = (\<lambda>t. 10800)\<rparr>"

definition utc_zone :: zone where
  "utc_zone = \<lparr>utcoffset_wall = (\<lambda>t. 0), utcoffset_utc = (\<lambda>t. 0)\<rparr>"

datatype tzinfo = TzUTC | TzMSK | TzOffset int

record datetime =
  ticks :: int
  tzinfo :: "tzinfo option"

section \<open>Configuration\<close>

text \<open>The module-level constants read from the environment, the zone \<^verbatim>\<open>MSK\<close>, and the
  zone of the machine, which \<^verbatim>\<open>astimezone\<close> gives to a \<^verbatim>\<open>datetime\<close> without \<^verbatim>\<open>tzinfo\<close>.\<close>

record config =
  OVERLAP_MINUTES :: int
  BATCH_SIZE :: int
  WB_SLEEP_SECONDS :: int
  MSK :: zone
  LOCAL_TZ :: zone

subsection \<open>\<^verbatim>\<open>astimezone\<close>, \<^verbatim>\<open>timedelta\<close> arithmetic\<close>

definition utcoffset :: "config \<Rightarrow> datetime \<Rightarrow> int" where
  "utcoffset cfg dt =
     (case tzinfo dt of
        None \<Rightarrow> utcoffset_wall (LOCAL_TZ cfg) (ticks dt)
      | Some TzUTC \<Rightarrow> 0
      | Some TzMSK \<Rightarrow> utcoffset_wall (MSK cfg) (ticks dt)
      | Some (TzOffset s) \<Rightarrow> s)"

definition fromutc_offset :: "config \<Rightarrow> tzinfo \<Rightarrow> int \<Rightarrow> int" where
  "fromutc_offset cfg tz u =
     (case tz of TzUTC \<Rightarrow> 0 | TzMSK \<Rightarrow> utcoffset_utc (MSK cfg) u | TzOffset s \<Rightarrow> s)"

text \<open>\<^verbatim>\<open>dt + timedelta(microseconds=us)\<close>: the wall-clock time moves, the \<^verbatim>\<open>tzinfo\<close>
  stays; a result outside the range of \<^verbatim>\<open>datetime\<close> raises.\<close>

definition dt_add :: "datetime \<Rightarrow> int \<Rightarrow> error + datetime" where
  "dt_add dt us =
     (if in_range (ticks dt + us) then Inr (dt\<lparr>ticks := ticks dt + us\<rparr>) else Inl OverflowError)"

text \<open>\<^verbatim>\<open>dt.astimezone(tz)\<close>: subtract the offset of \<open>dt\<close>, then let \<open>tz\<close> add its own
  (\<^verbatim>\<open>fromutc\<close>); the same \<^verbatim>\<open>tzinfo\<close> returns \<open>dt\<close> unchanged.\<close>

definition astimezone :: "config \<Rightarrow> datetime \<Rightarrow> tzinfo \<Rightarrow> error + datetime" where
  "astimezone cfg dt tz =
     (if tzinfo dt = Some tz then Inr dt
      else
        let u = ticks dt - utcoffset cfg dt * us_per_second in
        if \<not> in_range u then Inl OverflowError
        else
          let l = u + fromutc_offset cfg tz u * us_per_second in
          if \<not> in_range l then Inl OverflowError
          else Inr \<lparr>ticks = l, tzinfo = Some tz\<rparr>)"

subsection \<open>Digits\<close>

definition digits :: string where
  "digits = ''0123456789''"

definition digit_char :: "int \<Rightarrow> char" where
  "digit_char n = digits ! nat n"

definition digit_val :: "char \<Rightarrow> int option" where
  "digit_val c = map_of (zip digits [0, 1, 2, 3, 4, 5, 6, 7, 8, 9]) c"

text \<open>The value of a string of decimal digits, after the value \<open>acc\<close> of the digits
  before it; \<open>None\<close> when a character is not a digit.\<close>

fun digits_val :: "int \<Rightarrow> string \<Rightarrow> int option" where
  "digits_val acc [] = Some acc"
| "digits_val acc (c # cs) =
     (case digit_val c of None \<Rightarrow> None | Some d \<Rightarrow> digits_val (10 * acc + d) cs)"

definition number :: "string \<Rightarrow> int option" where
  "number s = (if s = [] then None else digits_val 0 s)"

definition pad2 :: "int \<Rightarrow> string" where
  "pad2 n = [digit_char (n div 10 mod 10), digit_char (n mod 10)]"

definition pad4 :: "int \<Rightarrow> string" where
  "pad4 n = pad2 (n div 100) @ pad2 n"

definition pad6 :: "int \<Rightarrow> string" where
  "pad6 n = pad2 (n div 10000) @ pad4 n"

subsection \<open>Formatting\<close>

text \<open>\<^verbatim>\<open>strftime("%Y-%m-%dT%H:%M:%S")\<close>: the wall-clock fields, zero-padded, the
  microseconds dropped, no offset. (For a year below 1000 the C library decides whether
  \<^verbatim>\<open>%Y\<close> is padded to four digits; the model pads, as \<^verbatim>\<open>isoformat\<close> does.)\<close>

definition strftime_wb :: "datetime \<Rightarrow> string" where
  "strftime_wb dt =
     (case ord2ymd (ticks dt div us_per_day + 1) of
        (y, m, d) \<Rightarrow>
          let r = ticks dt mod us_per_day div us_per_second in
          pad4 y @ ''-'' @ pad2 m @ ''-'' @ pad2 d @ ''T'' @
          pad2 (r div 3600) @ '':'' @ pad2 (r div 60 mod 60) @ '':'' @ pad2 (r mod 60))"

definition format_offset :: "int \<Rightarrow> string" where
  "format_offset s =
     (let a = \<bar>s\<bar> in
      (if s < 0 then ''-'' else ''+'') @ pad2 (a div 3600) @ '':'' @ pad2 (a div 60 mod 60) @
      (if a mod 60 = 0 then [] else '':'' @ pad2 (a mod 60)))"

text \<open>\<^verbatim>\<open>dt.isoformat()\<close>: the fields, the microseconds when they are not zero, and the
  offset of an aware \<^verbatim>\<open>datetime\<close>.\<close>

definition isoformat :: "config \<Rightarrow> datetime \<Rightarrow> string" where
  "isoformat cfg dt =
     strftime_wb dt @
     (if ticks dt mod us_per_second = 0 then [] else ''.'' @ pad6 (ticks dt mod us_per_second)) @
     (case tzinfo dt of None \<Rightarrow> [] | Some tz \<Rightarrow> format_offset (utcoffset cfg dt))"

subsection \<open>Parsing\<close>

text \<open>
  \<^verbatim>\<open>dateutil.parser.isoparse\<close> is a library function. The model covers the extended
  ISO-8601 format that the upstream feed and the sink emit:
  \<^verbatim>\<open>YYYY-MM-DD\<close>, optionally followed by one separator character, \<^verbatim>\<open>HH:MM:SS\<close>, an
  optional fraction (\<^verbatim>\<open>.\<close> or \<^verbatim>\<open>,\<close> and digits, of which six are kept) and an optional
  offset (\<^verbatim>\<open>Z\<close> or \<^verbatim>\<open>+HH:MM\<close> or \<^verbatim>\<open>-HH:MM\<close>). The hour 24 is midnight of the next
  day. The library reads further ISO-8601 shapes (basic format, reduced precision, week
  dates); the model rejects them, and no theorem below depends on a string of such a
  shape being rejected.
\<close>

definition parse_date :: "string \<Rightarrow> int option" where
  "parse_date s =
     (if length s = 10 \<and> s ! 4 = CHR ''-'' \<and> s ! 7 = CHR ''-'' then
        (case (number (take 4 s), number (take 2 (drop 5 s)), number (drop 8 s)) of
           (Some y, Some m, Some d) \<Rightarrow>
             if 1 \<le> y \<and> 1 \<le> m \<and> m \<le> 12 \<and> 1 \<le> d \<and> d \<le> days_in_month y m
             then Some (ymd2ord y m d - 1) else None
         | _ \<Rightarrow> None)
      else None)"

text \<open>The fraction of a second: the first six digits, as microseconds.\<close>

definition parse_fraction :: "string \<Rightarrow> int option" where
  "parse_fraction ds = (if ds = [] then None else digits_val 0 (take 6 (ds @ ''000000'')))"

definition parse_tz :: "string \<Rightarrow> tzinfo option option" where
  "parse_tz s =
     (if s = [] then Some None
      else if s = ''Z'' then Some (Some (TzOffset 0))
      else if length s = 6 \<and> (s ! 0 = CHR ''+'' \<or> s ! 0 = CHR ''-'') \<and> s ! 3 = CHR '':'' then
        (case (number (take 2 (drop 1 s)), number (drop 4 s)) of
           (Some h, Some m) \<Rightarrow>
             if h \<le> 23 \<and> m \<le> 59
             then Some (Some (TzOffset ((if s ! 0 = CHR ''-'' then - 1 else 1) * (h * 3600 + m * 60))))
             else None
         | _ \<Rightarrow> None)
      else None)"

definition is_digit :: "char \<Rightarrow> bool" where
  "is_digit c = (digit_val c \<noteq> None)"

text \<open>The time of day in microseconds and the \<^verbatim>\<open>tzinfo\<close> of the part after the
  separator.\<close>

definition parse_time :: "string \<Rightarrow> (int \<times> tzinfo option) option" where
  "parse_time t =
     (if 8 \<le> length t \<and> t ! 2 = CHR '':'' \<and> t ! 5 = CHR '':'' then
        (case (number (take 2 t), number (take 2 (drop 3 t)), number (take 2 (drop 6 t))) of
           (Some h, Some mi, Some sec) \<Rightarrow>
             let rest = drop 8 t;
                 has_frac = (rest \<noteq> [] \<and> (hd rest = CHR ''.'' \<or> hd rest = CHR '',''));
                 ds = (if has_frac then takeWhile is_digit (tl rest) else []);
                 tzs = (if has_frac then dropWhile is_digit (tl rest) else rest)
             in
             (case ((if has_frac then parse_fraction ds else Some 0), parse_tz tzs) of
                (Some us, Some tz) \<Rightarrow>
                  if h \<le> 23 \<and> mi \<le> 59 \<and> sec \<le> 59 \<or> h = 24 \<and> mi = 0 \<and> sec = 0 \<and> us = 0
                  then Some ((h * 3600 + mi * 60 + sec) * us_per_second + us, tz)
                  else None
              | _ \<Rightarrow> None)
         | _ \<Rightarrow> None)
      else None)"

definition isoparse :: "string \<Rightarrow> error + datetime" where
  "isoparse s =
     (case parse_date (take 10 s) of
        None \<Rightarrow> Inl ValueError
      | Some days \<Rightarrow>
          if length s \<le> 10 then Inr \<lparr>ticks = days * us_per_day, tzinfo = None\<rparr>
          else
            (case parse_time (drop 11 s) of
               None \<Rightarrow> Inl ValueError
             | Some (us, tz) \<Rightarrow>
                 if in_range (days * us_per_day + us)
                 then Inr \<lparr>ticks = days * us_per_day + us, tzinfo = tz\<rparr>
                 else Inl OverflowError))"

text \<open>\<^verbatim>\<open>isoparse\<close> of a decoded JSON value: anything but a string raises (a
  \<^verbatim>\<open>TypeError\<close>, or for an empty list or dict a \<^verbatim>\<open>ValueError\<close>).\<close>

fun isoparse_json :: "json \<Rightarrow> error + datetime" where
  "isoparse_json (JStr s) = isoparse s"
| "isoparse_json (JList []) = Inl ValueError"
| "isoparse_json (JObj []) = Inl ValueError"
| "isoparse_json _ = Inl TypeError"

subsection \<open>\<^verbatim>\<open>datetime.fromisoformat\<close>\<close>

text \<open>
  \<^verbatim>\<open>datetime.fromisoformat\<close> is a library function. The model follows its
  implementation in CPython 3.11 (\<^verbatim>\<open>Modules/_datetimemodule.c\<close>), on a string of ASCII
  characters. The characters 4 and 5 tell where the date ends: the date is
  \<^verbatim>\<open>YYYY-MM-DD\<close> or \<^verbatim>\<open>YYYYMMDD\<close>, or a week date \<^verbatim>\<open>YYYY-Www\<close>, \<^verbatim>\<open>YYYYWww\<close>,
  \<^verbatim>\<open>YYYY-Www-D\<close>, \<^verbatim>\<open>YYYYWwwD\<close>. After one separator character, whatever it is,
  comes the time, \<^verbatim>\<open>HH\<close>, \<^verbatim>\<open>HH:MM\<close>, \<^verbatim>\<open>HH:MM:SS\<close> or the same without colons, with an
  optional fraction of a second and an optional offset (\<^verbatim>\<open>Z\<close>, or a sign and a time).
  The hours go up to 23. Every failure is a \<^verbatim>\<open>ValueError\<close>.

  A position in the string is the rest of the string from there on, and the end of
  the string is the empty rest. \<^verbatim>\<open>parse_digits\<close> reads exactly \<open>n\<close> digits.
\<close>

definition parse_digits :: "string \<Rightarrow> nat \<Rightarrow> (int \<times> string) option" where
  "parse_digits p n =
     (if length p < n then None
      else (case digits_val 0 (take n p) of
              None \<Rightarrow> None
            | Some v \<Rightarrow> Some (v, drop n p)))"

text \<open>The position of the separator, for a string of at least 7 characters.\<close>

definition find_isoformat_datetime_separator :: "string \<Rightarrow> nat option" where
  "find_isoformat_datetime_separator dtstr =
     (let len = length dtstr in
      if len = 7 then Some 7
      else if dtstr ! 4 = CHR ''-'' then
        (if dtstr ! 5 = CHR ''W'' then
           (if len < 8 then None
            else if 8 < len \<and> dtstr ! 8 = CHR ''-'' then
              (if len = 9 then None
               else if 10 < len \<and> is_digit (dtstr ! 10) then Some 8
               else Some 10)
            else Some 8)
         else Some 10)
      else if dtstr ! 4 = CHR ''W'' then
        (let idx = 7 + length (takeWhile is_digit (drop 7 dtstr)) in
         if idx < 9 then Some idx
         else if even idx then Some 7
         else Some 8)
      else Some 8)"

text \<open>Week dates: the day of the week of a date, from 0 for Monday; the ordinal of
  the Monday of the first ISO week of a year; the date of a day of an ISO week. A year
  has a week 53 when it starts on a Thursday, or on a Wednesday and is a leap year. A
  week date before 0001-01-01 or after 9999-12-31 is refused.\<close>

definition weekday :: "int \<Rightarrow> int \<Rightarrow> int \<Rightarrow> int" where
  "weekday y m d = (ymd2ord y m d + 6) mod 7"

definition iso_week1_monday :: "int \<Rightarrow> int" where
  "iso_week1_monday y =
     (let first_day = ymd2ord y 1 1;
          first_weekday = (first_day + 6) mod 7;
          week1_monday = first_day - first_weekday
      in if 3 < first_weekday then week1_monday + 7 else week1_monday)"

definition iso_to_ymd :: "int \<Rightarrow> int \<Rightarrow> int \<Rightarrow> (int \<times> int \<times> int) option" where
  "iso_to_ymd iso_year iso_week iso_day =
     (if iso_year < 1 then None
      else if (iso_week \<le> 0 \<or> 53 \<le> iso_week) \<and>
              \<not> (iso_week = 53 \<and>
                 (weekday iso_year 1 1 = 3 \<or> weekday iso_year 1 1 = 2 \<and> is_leap iso_year))
      then None
      else if iso_day \<le> 0 \<or> 8 \<le> iso_day then None
      else
        (let n = iso_week1_monday iso_year + (iso_week - 1) * 7 + iso_day - 1 in
         if 1 \<le> n \<and> n \<le> ymd2ord 9999 12 31 then Some (ord2ymd n) else None))"

text \<open>The fields of a date, as the constructor of \<^verbatim>\<open>datetime\<close> checks them.\<close>

definition check_date_fields :: "int \<Rightarrow> int \<Rightarrow> int \<Rightarrow> (int \<times> int \<times> int) option" where
  "check_date_fields y m d =
     (if 1 \<le> y \<and> y \<le> 9999 \<and> 1 \<le> m \<and> m \<le> 12 \<and> 1 \<le> d \<and> d \<le> days_in_month y m
      then Some (y, m, d) else None)"

text \<open>The date, which ends at the position \<open>len\<close> of the string.\<close>

definition parse_isoformat_date :: "string \<Rightarrow> nat \<Rightarrow> (int \<times> int \<times> int) option" where
  "parse_isoformat_date dtstr len =
     (case parse_digits dtstr 4 of
        None \<Rightarrow> None
      | Some (y, p0) \<Rightarrow>
          let uses_separator = (take 1 p0 = ''-'');
              p = (if uses_separator then drop 1 p0 else p0)
          in
          if take 1 p = ''W'' then
            (case parse_digits (drop 1 p) 2 of
               None \<Rightarrow> None
             | Some (iso_week, p1) \<Rightarrow>
                 if length dtstr - length p1 < len then
                   (if uses_separator \<and> take 1 p1 \<noteq> ''-'' then None
                    else
                      (case parse_digits (if uses_separator then drop 1 p1 else p1) 1 of
                         None \<Rightarrow> None
                       | Some (iso_day, p2) \<Rightarrow> iso_to_ymd y iso_week iso_day))
                 else iso_to_ymd y iso_week 1)
          else
            (case parse_digits p 2 of
               None \<Rightarrow> None
             | Some (m, p1) \<Rightarrow>
                 if uses_separator \<and> take 1 p1 \<noteq> ''-'' then None
                 else
                   (case parse_digits (if uses_separator then drop 1 p1 else p1) 2 of
                      None \<Rightarrow> None
                    | Some (d, p2) \<Rightarrow> check_date_fields y m d)))"

text \<open>
  \<^verbatim>\<open>parse_hh_mm_ss_ff\<close> reads a time up to the end of its part of the string (the
  part before the offset, or the offset after its sign): up to three numbers of two
  digits, with colons between them when there is a colon after the first, and then
  the digits of a fraction, of which six are kept. The fraction comes after a dot or a
  comma; the implementation also reads one after a third colon, and in a time without
  colons right after the third number. The result says whether a character was left
  over (\<open>True\<close>): one last character after a number, or anything after the digits of
  the fraction.
\<close>

definition parse_microsecond :: "string \<Rightarrow> int list \<Rightarrow> (bool \<times> int list \<times> int) option" where
  "parse_microsecond p vals =
     (let to_parse = min (length p) 6 in
      case parse_digits p to_parse of
        None \<Rightarrow> None
      | Some (us, p1) \<Rightarrow> Some (dropWhile is_digit p1 \<noteq> [], vals, us * 10 ^ (6 - to_parse)))"

fun parse_components ::
    "nat \<Rightarrow> bool \<Rightarrow> bool \<Rightarrow> string \<Rightarrow> int list \<Rightarrow> (bool \<times> int list \<times> int) option" where
  "parse_components 0 first has_separator p vals = parse_microsecond p vals"
| "parse_components (Suc left) first has_separator p vals =
     (case parse_digits p 2 of
        None \<Rightarrow> None
      | Some (v, p1) \<Rightarrow>
          let c = take 1 p1;
              p2 = drop 1 p1;
              has_separator = (if first then c = '':'' else has_separator)
          in
          if p2 = [] then Some (c \<noteq> [], vals @ [v], 0)
          else if has_separator \<and> c = '':'' then
            parse_components left False has_separator p2 (vals @ [v])
          else if c = ''.'' \<or> c = '','' then parse_microsecond p2 (vals @ [v])
          else if \<not> has_separator then
            parse_components left False has_separator p1 (vals @ [v])
          else None)"

definition parse_hh_mm_ss_ff :: "string \<Rightarrow> (bool \<times> int \<times> int \<times> int \<times> int) option" where
  "parse_hh_mm_ss_ff tstr =
     (case parse_components 3 True True tstr [] of
        None \<Rightarrow> None
      | Some (left_over, vals, us) \<Rightarrow>
          (case vals @ [0, 0, 0] of
             h # mi # sec # _ \<Rightarrow> Some (left_over, h, mi, sec, us)
           | _ \<Rightarrow> None))"

text \<open>
  The time and the offset. The offset starts at the first \<^verbatim>\<open>Z\<close>, \<^verbatim>\<open>+\<close> or \<^verbatim>\<open>-\<close>.
  Characters left over after the time are refused in a string without offset, and
  are not looked at in a string with one. An offset of zero seconds is UTC, whatever its
  fraction; any other offset must be less than 24 hours. The offset is in
  microseconds.
\<close>

definition is_tz_char :: "char \<Rightarrow> bool" where
  "is_tz_char c = (c = CHR ''Z'' \<or> c = CHR ''+'' \<or> c = CHR ''-'')"

definition parse_isoformat_time :: "string \<Rightarrow> ((int \<times> int \<times> int \<times> int) \<times> int option) option" where
  "parse_isoformat_time dtstr =
     (let tstr = takeWhile (\<lambda>c. \<not> is_tz_char c) dtstr;
          tzstr = dropWhile (\<lambda>c. \<not> is_tz_char c) dtstr
      in
      case parse_hh_mm_ss_ff tstr of
        None \<Rightarrow> None
      | Some (left_over, h, mi, sec, us) \<Rightarrow>
          if \<not> (h \<le> 23 \<and> mi \<le> 59 \<and> sec \<le> 59) then None
          else if tzstr = [] then (if left_over then None else Some ((h, mi, sec, us), None))
          else if hd tzstr = CHR ''Z'' then
            (if tl tzstr \<noteq> [] then None else Some ((h, mi, sec, us), Some 0))
          else
            (case parse_hh_mm_ss_ff (tl tzstr) of
               None \<Rightarrow> None
             | Some (tz_left_over, tzhour, tzminute, tzsecond, tzmicrosecond) \<Rightarrow>
                 let tzsign = (if hd tzstr = CHR ''-'' then - 1 else 1);
                     tzoffset = 3600 * tzhour + 60 * tzminute + tzsecond
                 in
                 if tz_left_over then None
                 else if tzoffset = 0 then Some ((h, mi, sec, us), Some 0)
                 else if tzoffset * 1000000 + tzmicrosecond < 86400 * 1000000
                 then Some ((h, mi, sec, us), Some (tzsign * (tzoffset * 1000000 + tzmicrosecond)))
                 else None))"

text \<open>The fields of the \<^verbatim>\<open>datetime\<close> of a string: the date, the time and the offset.\<close>

definition fromisoformat ::
    "string \<Rightarrow> error + (int \<times> int \<times> int) \<times> (int \<times> int \<times> int \<times> int) \<times> int option" where
  "fromisoformat dtstr =
     (if length dtstr < 7 then Inl ValueError
      else
        (case find_isoformat_datetime_separator dtstr of
           None \<Rightarrow> Inl ValueError
         | Some separator_location \<Rightarrow>
             (case parse_isoformat_date dtstr separator_location of
                None \<Rightarrow> Inl ValueError
              | Some date \<Rightarrow>
                  if separator_location < length dtstr then
                    (case parse_isoformat_time (drop (separator_location + 1) dtstr) of
                       None \<Rightarrow> Inl ValueError
                     | Some (time, tz) \<Rightarrow> Inr (date, time, tz))
                  else Inr (date, (0, 0, 0, 0), None))))"

section \<open>Time helpers of the program\<close>

text \<open>
  \<^verbatim>\<open>
  def parse_wb_dt_to_utc(dt_str):
      dt = isoparse(dt_str)
      if dt.tzinfo is None:
          dt = dt.replace(tzinfo=MSK)
      return dt.astimezone(timezone.utc)
  \<close>
\<close>

definition parse_wb_dt_to_utc :: "config \<Rightarrow> json \<Rightarrow> error + datetime" where
  "parse_wb_dt_to_utc cfg dt_str =
     (case isoparse_json dt_str of
        Inl e \<Rightarrow> Inl e
      | Inr dt \<Rightarrow>
          astimezone cfg (if tzinfo dt = None then dt\<lparr>tzinfo := Some TzMSK\<rparr> else dt) TzUTC)"

text \<open>
  \<^verbatim>\<open>
  def format_dt_for_wb(date_utc):
      dt_msk = date_utc.astimezone(MSK)
      return dt_msk.strftime("%Y-%m-%dT%H:%M:%S")
  \<close>
\<close>

definition format_dt_for_wb :: "config \<Rightarrow> datetime \<Rightarrow> error + string" where
  "format_dt_for_wb cfg date_utc =
     (case astimezone cfg date_utc TzMSK of
        Inl e \<Rightarrow> Inl e
      | Inr dt_msk \<Rightarrow> Inr (strftime_wb dt_msk))"

section \<open>The outside world\<close>

text \<open>
  The program talks to the upstream feed and to the sink over HTTP and sleeps in
  between. What the two servers answer is the input of a run: the \<open>n\<close>-th request
  to a server gets the \<open>n\<close>-th outcome of that server, whatever it is. What the program
  does is recorded as a sequence of events. An outcome is a response, with its status
  code and its body decoded as JSON (\<open>None\<close> when it is not JSON), or the failure of
  the request (\<^verbatim>\<open>requests.RequestException\<close>: no connection, timeout). The lines
  that the program prints are not part of the model.
\<close>

datatype http_outcome = Response int "json option" | NetworkError

record env =
  wb_resp :: "nat \<Rightarrow> http_outcome"
  db_resp :: "nat \<Rightarrow> http_outcome"

datatype event =
    WbGet json int  \<comment> \<open>\<^verbatim>\<open>GET\<close> to the feed: \<^verbatim>\<open>dateFrom\<close>, \<^verbatim>\<open>flag\<close>\<close>
  | Sleep int  \<comment> \<open>\<^verbatim>\<open>time.sleep\<close>, seconds\<close>
  | DbSelect "(string \<times> string) list"  \<comment> \<open>\<^verbatim>\<open>GET\<close> with the query parameters\<close>
  | DbDelete string string  \<comment> \<open>\<^verbatim>\<open>DELETE\<close> with the filters \<^verbatim>\<open>date=gte.\<close>\<open>a\<close>, \<^verbatim>\<open>date=lt.\<close>\<open>b\<close>\<close>
  | DbUpsert "json list"  \<comment> \<open>\<^verbatim>\<open>POST\<close> of one batch of rows\<close>

record world =
  wb_calls :: nat
  db_calls :: nat
  trace :: "event list"

definition emit :: "event \<Rightarrow> world \<Rightarrow> world" where
  "emit e w = w\<lparr>trace := trace w @ [e]\<rparr>"

text \<open>\<^verbatim>\<open>time.sleep(s)\<close> raises \<^verbatim>\<open>ValueError\<close> for a negative length.\<close>

definition sleep :: "int \<Rightarrow> world \<Rightarrow> (error + unit) \<times> world" where
  "sleep s w = (if s < 0 then (Inl ValueError, w) else (Inr (), emit (Sleep s) w))"

text \<open>\<^verbatim>\<open>r.raise_for_status()\<close> raises for the status codes from 400 to 599.\<close>

definition is_error_status :: "int \<Rightarrow> bool" where
  "is_error_status status = (400 \<le> status \<and> status < 600)"

section \<open>The upstream client\<close>

text \<open>
  \<^verbatim>\<open>
  def wb_request(date_from, flag=0, max_retries=6):
      params = {"dateFrom": date_from, "flag": flag}
      for attempt in range(1, max_retries + 1):
          try:
              r = requests.get(WB_API_URL, headers=wb_headers(), params=params, timeout=60)
              if r.status_code == 200:
                  data = r.json()
                  return data if isinstance(data, list) else []
              if r.status_code == 429:
                  sleep_s = max(WB_SLEEP_SECONDS, 65)
                  time.sleep(sleep_s)
                  continue
              if 500 <= r.status_code < 600:
                  sleep_s = 10 * attempt
                  time.sleep(sleep_s)
                  continue
              return []
          except requests.RequestException as e:
              sleep_s = 10 * attempt
              time.sleep(sleep_s)
      return []
  \<close>
  The \<^verbatim>\<open>for\<close> loop is the recursion of \<open>wb_attempts\<close> on the number of attempts that
  are left; \<open>attempt\<close> is the loop variable. A body of status 200 that is not JSON
  makes \<^verbatim>\<open>r.json()\<close> raise a \<^verbatim>\<open>RequestException\<close>, which the handler catches.
\<close>

fun wb_attempts :: "config \<Rightarrow> env \<Rightarrow> json \<Rightarrow> int \<Rightarrow> int \<Rightarrow> nat \<Rightarrow> world \<Rightarrow> json list \<times> world" where
  "wb_attempts cfg env date_from flag attempt 0 w = ([], w)"
| "wb_attempts cfg env date_from flag attempt (Suc left) w =
     (let w1 = (emit (WbGet date_from flag) w)\<lparr>wb_calls := Suc (wb_calls w)\<rparr> in
      case wb_resp env (wb_calls w) of
        NetworkError \<Rightarrow>
          wb_attempts cfg env date_from flag (attempt + 1) left (emit (Sleep (10 * attempt)) w1)
      | Response status body \<Rightarrow>
          if status = 200 then
            (case body of
               None \<Rightarrow>
                 wb_attempts cfg env date_from flag (attempt + 1) left
                   (emit (Sleep (10 * attempt)) w1)
             | Some (JList xs) \<Rightarrow> (xs, w1)
             | Some _ \<Rightarrow> ([], w1))
          else if status = 429 then
            wb_attempts cfg env date_from flag (attempt + 1) left
              (emit (Sleep (max (WB_SLEEP_SECONDS cfg) 65)) w1)
          else if 500 \<le> status \<and> status < 600 then
            wb_attempts cfg env date_from flag (attempt + 1) left (emit (Sleep (10 * attempt)) w1)
          else ([], w1))"

definition wb_request :: "config \<Rightarrow> env \<Rightarrow> json \<Rightarrow> int \<Rightarrow> nat \<Rightarrow> world \<Rightarrow> json list \<times> world" where
  "wb_request cfg env date_from flag max_retries w =
     wb_attempts cfg env date_from flag 1 max_retries w"

section \<open>The sink gateway\<close>

text \<open>\<^verbatim>\<open>rows[0]\<close> of a decoded JSON value that is not empty.\<close>

fun first_item :: "json \<Rightarrow> error + json" where
  "first_item (JList (x # xs)) = Inr x"
| "first_item (JStr (c # cs)) = Inr (JStr [c])"
| "first_item (JObj kvs) = Inl (KeyError ''0'')"
| "first_item _ = Inl TypeError"

text \<open>
  \<^verbatim>\<open>
  def get_db_max_last_change_date_utc():
      params = {"select": "last_change_date", "order": "last_change_date.desc", "limit": "1"}
      r = requests.get(url, headers=supabase_headers(), params=params, timeout=60)
      r.raise_for_status()
      rows = r.json()
      if not rows:
          start_msk = datetime(2023, 1, 1, 0, 0, 0, tzinfo=MSK)
          return start_msk.astimezone(timezone.utc)
      return isoparse(rows[0]["last_change_date"]).astimezone(timezone.utc)
  \<close>
\<close>

text \<open>The query parameters of the select, and the start of the history.\<close>

definition params :: "(string \<times> string) list" where
  "params =
     [(''select'', ''last_change_date''),
      (''order'', ''last_change_date.desc''),
      (''limit'', ''1'')]"

definition start_msk_2023 :: datetime where
  "start_msk_2023 = \<lparr>ticks = (ymd2ord 2023 1 1 - 1) * us_per_day, tzinfo = Some TzMSK\<rparr>"

definition get_db_max_last_change_date_utc ::
    "config \<Rightarrow> env \<Rightarrow> world \<Rightarrow> (error + datetime) \<times> world" where
  "get_db_max_last_change_date_utc cfg env w =
     (let w1 = (emit (DbSelect params) w)\<lparr>db_calls := Suc (db_calls w)\<rparr> in
      case db_resp env (db_calls w) of
        NetworkError \<Rightarrow> (Inl RequestException, w1)
      | Response status body \<Rightarrow>
          if is_error_status status then (Inl (HTTPError status), w1)
          else
            (case body of
               None \<Rightarrow> (Inl RequestException, w1)
             | Some rows \<Rightarrow>
                 if \<not> truthy rows then (astimezone cfg start_msk_2023 TzUTC, w1)
                 else
                   (case first_item rows of
                      Inl e \<Rightarrow> (Inl e, w1)
                    | Inr row \<Rightarrow>
                        (case subscript row ''last_change_date'' of
                           Inl e \<Rightarrow> (Inl e, w1)
                         | Inr v \<Rightarrow>
                             (case isoparse_json v of
                                Inl e \<Rightarrow> (Inl e, w1)
                              | Inr dt \<Rightarrow> (astimezone cfg dt TzUTC, w1))))))"

text \<open>
  \<^verbatim>\<open>
  def delete_msk_day_from_db(day_yyyy_mm_dd):
      day = datetime.fromisoformat(day_yyyy_mm_dd).date()
      start_msk = datetime(day.year, day.month, day.day, 0, 0, 0, tzinfo=MSK)
      end_msk = start_msk + timedelta(days=1)
      start_utc = start_msk.astimezone(timezone.utc).isoformat()
      end_utc = end_msk.astimezone(timezone.utc).isoformat()
      params = [("date", f"gte.{start_utc}"), ("date", f"lt.{end_utc}")]
      r = requests.delete(url, headers=supabase_headers(), params=params, timeout=120)
      r.raise_for_status()
  \<close>
  \<^verbatim>\<open>.date()\<close> keeps the year, the month and the day of what
  \<^verbatim>\<open>datetime.fromisoformat\<close> returns.
\<close>

definition delete_msk_day_from_db ::
    "config \<Rightarrow> env \<Rightarrow> string \<Rightarrow> world \<Rightarrow> (error + unit) \<times> world" where
  "delete_msk_day_from_db cfg env day_yyyy_mm_dd w =
     (case fromisoformat day_yyyy_mm_dd of
        Inl e \<Rightarrow> (Inl e, w)
      | Inr ((y, m, d), time, tz) \<Rightarrow>
          let start_msk = \<lparr>ticks = (ymd2ord y m d - 1) * us_per_day, tzinfo = Some TzMSK\<rparr> in
          (case dt_add start_msk us_per_day of
             Inl e \<Rightarrow> (Inl e, w)
           | Inr end_msk \<Rightarrow>
               (case astimezone cfg start_msk TzUTC of
                  Inl e \<Rightarrow> (Inl e, w)
                | Inr start_utc \<Rightarrow>
                    (case astimezone cfg end_msk TzUTC of
                       Inl e \<Rightarrow> (Inl e, w)
                     | Inr end_utc \<Rightarrow>
                         let w1 = (emit (DbDelete (isoformat cfg start_utc) (isoformat cfg end_utc)) w)
                                    \<lparr>db_calls := Suc (db_calls w)\<rparr> in
                         (case db_resp env (db_calls w) of
                            NetworkError \<Rightarrow> (Inl RequestException, w1)
                          | Response status body \<Rightarrow>
                              if is_error_status status then (Inl (HTTPError status), w1)
                              else (Inr (), w1))))))"

text \<open>
  \<^verbatim>\<open>
  def upsert_orders_to_db(rows):
      if not rows:
          return
      for i in range(0, len(rows), BATCH_SIZE):
          batch = rows[i:i + BATCH_SIZE]
          r = requests.post(url, headers=headers, data=json.dumps(batch), timeout=180)
          r.raise_for_status()
  \<close>
  \<open>upsert_batches\<close> is the \<^verbatim>\<open>for\<close> loop for a positive step, on the rows from index
  \<open>i\<close> on. \<^verbatim>\<open>range\<close> raises \<^verbatim>\<open>ValueError\<close> for the step 0 and is empty for a negative
  step.
\<close>

function upsert_batches :: "env \<Rightarrow> nat \<Rightarrow> json list \<Rightarrow> world \<Rightarrow> (error + unit) \<times> world" where
  "upsert_batches env n rows w =
     (if rows = [] \<or> n = 0 then (Inr (), w)
      else
        (case db_resp env (db_calls w) of
           NetworkError \<Rightarrow>
             (Inl RequestException, (emit (DbUpsert (take n rows)) w)\<lparr>db_calls := Suc (db_calls w)\<rparr>)
         | Response status body \<Rightarrow>
             if is_error_status status
             then (Inl (HTTPError status),
                   (emit (DbUpsert (take n rows)) w)\<lparr>db_calls := Suc (db_calls w)\<rparr>)
             else upsert_batches env n (drop n rows)
                    ((emit (DbUpsert (take n rows)) w)\<lparr>db_calls := Suc (db_calls w)\<rparr>)))"
  by pat_completeness auto
termination
  by (relation "measure (\<lambda>(env, n, rows, w). length rows)") auto

declare upsert_batches.simps [simp del]

definition upsert_orders_to_db ::
    "config \<Rightarrow> env \<Rightarrow> json list \<Rightarrow> world \<Rightarrow> (error + unit) \<times> world" where
  "upsert_orders_to_db cfg env rows w =
     (if rows = [] then (Inr (), w)
      else if BATCH_SIZE cfg = 0 then (Inl ValueError, w)
      else if BATCH_SIZE cfg < 0 then (Inr (), w)
      else upsert_batches env (nat (BATCH_SIZE cfg)) rows w)"

section \<open>The record transformer\<close>

text \<open>\<^verbatim>\<open>o.get(key)\<close> on the items of a dict.\<close>

definition dict_get :: "(string \<times> json) list \<Rightarrow> string \<Rightarrow> json" where
  "dict_get kvs k = (case map_of kvs k of None \<Rightarrow> JNull | Some v \<Rightarrow> v)"

text \<open>
  The body of the loop of \<^verbatim>\<open>transform_wb_orders\<close>, for one record \<^verbatim>\<open>o\<close>:
  \<^verbatim>\<open>
  date_utc = parse_wb_dt_to_utc(o["date"]).isoformat()
  lcd_utc = parse_wb_dt_to_utc(o["lastChangeDate"]).isoformat()
  cancel_raw = o.get("cancelDate")
  cancel_utc = None
  if cancel_raw and cancel_raw != "0001-01-01T00:00:00":
      cancel_utc = parse_wb_dt_to_utc(cancel_raw).isoformat()
  out.append({"date": date_utc, "last_change_date": lcd_utc, ..., "srid": o.get("srid")})
  \<close>
  A record that is not a dict raises \<^verbatim>\<open>TypeError\<close> at \<^verbatim>\<open>o["date"]\<close>.
\<close>

fun transform_order :: "config \<Rightarrow> json \<Rightarrow> error + json" where
  "transform_order cfg (JObj kvs) =
     (case subscript (JObj kvs) ''date'' of
        Inl e \<Rightarrow> Inl e
      | Inr date_raw \<Rightarrow>
     (case parse_wb_dt_to_utc cfg date_raw of
        Inl e \<Rightarrow> Inl e
      | Inr date_utc \<Rightarrow>
     (case subscript (JObj kvs) ''lastChangeDate'' of
        Inl e \<Rightarrow> Inl e
      | Inr lcd_raw \<Rightarrow>
     (case parse_wb_dt_to_utc cfg lcd_raw of
        Inl e \<Rightarrow> Inl e
      | Inr lcd_utc \<Rightarrow>
     (case (let cancel_raw = dict_get kvs ''cancelDate'' in
            if truthy cancel_raw \<and> cancel_raw \<noteq> JStr ''0001-01-01T00:00:00''
            then (case parse_wb_dt_to_utc cfg cancel_raw of
                    Inl e \<Rightarrow> Inl e
                  | Inr c \<Rightarrow> Inr (JStr (isoformat cfg c)))
            else Inr JNull) of
        Inl e \<Rightarrow> Inl e
      | Inr cancel_utc \<Rightarrow>
          Inr (JObj
            [(''date'', JStr (isoformat cfg date_utc)),
             (''last_change_date'', JStr (isoformat cfg lcd_utc)),
             (''warehouse_name'', dict_get kvs ''warehouseName''),
             (''warehouse_type'', dict_get kvs ''warehouseType''),
             (''country_name'', dict_get kvs ''countryName''),
             (''oblast_okrug_name'', dict_get kvs ''oblastOkrugName''),
             (''region_name'', dict_get kvs ''regionName''),
             (''supplier_article'', dict_get kvs ''supplierArticle''),
             (''nm_id'', dict_get kvs ''nmId''),
             (''barcode'', dict_get kvs ''barcode''),
             (''category'', dict_get kvs ''category''),
             (''subject'', dict_get kvs ''subject''),
             (''brand'', dict_get kvs ''brand''),
             (''tech_size'', dict_get kvs ''techSize''),
             (''income_id'', dict_get kvs ''incomeID''),
             (''is_supply'', dict_get kvs ''isSupply''),
             (''is_realization'', dict_get kvs ''isRealization''),
             (''total_price'', dict_get kvs ''totalPrice''),
             (''discount_percent'', dict_get kvs ''discountPercent''),
             (''spp'', dict_get kvs ''spp''),
             (''finished_price'', dict_get kvs ''finishedPrice''),
             (''price_with_disc'', dict_get kvs ''priceWithDisc''),
             (''is_cancel'', dict_get kvs ''isCancel''),
             (''cancel_date'', cancel_utc),
             (''sticker'', dict_get kvs ''sticker''),
             (''g_number'', dict_get kvs ''gNumber''),
             (''srid'', dict_get kvs ''srid'')]))))))"
| "transform_order cfg _ = Inl TypeError"

text \<open>
  \<^verbatim>\<open>
  def transform_wb_orders(wb_orders):
      out = []
      for o in wb_orders:
          ...
          out.append({...})
      return out
  \<close>
  The first record that raises ends the function.
\<close>

fun transform_wb_orders :: "config \<Rightarrow> json list \<Rightarrow> error + json list" where
  "transform_wb_orders cfg [] = Inr []"
| "transform_wb_orders cfg (order # orders) =
     (case transform_order cfg order of
        Inl e \<Rightarrow> Inl e
      | Inr row \<Rightarrow>
          (case transform_wb_orders cfg orders of
             Inl e \<Rightarrow> Inl e
           | Inr out \<Rightarrow> Inr (row # out)))"

section \<open>The orchestrator\<close>

text \<open>
  \<^verbatim>\<open>
  def full_reload_day_msk(day_yyyy_mm_dd):
      delete_msk_day_from_db(day_yyyy_mm_dd)
      wb_data = wb_request(day_yyyy_mm_dd, flag=1)
      transformed = transform_wb_orders(wb_data)
      upsert_orders_to_db(transformed)
  \<close>
\<close>

definition full_reload_day_msk ::
    "config \<Rightarrow> env \<Rightarrow> string \<Rightarrow> world \<Rightarrow> (error + unit) \<times> world" where
  "full_reload_day_msk cfg env day_yyyy_mm_dd w =
     (case delete_msk_day_from_db cfg env day_yyyy_mm_dd w of
        (Inl e, w1) \<Rightarrow> (Inl e, w1)
      | (Inr u, w1) \<Rightarrow>
          (case wb_request cfg env (JStr day_yyyy_mm_dd) 1 6 w1 of
             (wb_data, w2) \<Rightarrow>
               (case transform_wb_orders cfg wb_data of
                  Inl e \<Rightarrow> (Inl e, w2)
                | Inr transformed \<Rightarrow> upsert_orders_to_db cfg env transformed w2)))"

text \<open>The pagination state of \<^verbatim>\<open>incremental_sync\<close>: its local variables \<^verbatim>\<open>cursor\<close>,
  \<^verbatim>\<open>prev_cursor\<close> and \<^verbatim>\<open>pages\<close>. The cursor is the formatted start at first and then a
  value taken from a record, as it was decoded.\<close>

record sync_state =
  cursor :: json
  prev_cursor :: "json option"
  pages :: int

text \<open>
  The first lines of \<^verbatim>\<open>incremental_sync\<close>, up to the loop:
  \<^verbatim>\<open>
  db_max_lcd = get_db_max_last_change_date_utc()
  start_utc = db_max_lcd - timedelta(minutes=OVERLAP_MINUTES)
  cursor = format_dt_for_wb(start_utc)
  pages = 0
  prev_cursor = None
  \<close>
\<close>

definition incremental_start ::
    "config \<Rightarrow> env \<Rightarrow> world \<Rightarrow> (error + sync_state) \<times> world" where
  "incremental_start cfg env w =
     (case get_db_max_last_change_date_utc cfg env w of
        (Inl e, w1) \<Rightarrow> (Inl e, w1)
      | (Inr db_max_lcd, w1) \<Rightarrow>
          (case dt_add db_max_lcd (- (OVERLAP_MINUTES cfg * 60 * us_per_second)) of
             Inl e \<Rightarrow> (Inl e, w1)
           | Inr start_utc \<Rightarrow>
               (case format_dt_for_wb cfg start_utc of
                  Inl e \<Rightarrow> (Inl e, w1)
                | Inr c \<Rightarrow> (Inr \<lparr>cursor = JStr c, prev_cursor = None, pages = 0\<rparr>, w1))))"

text \<open>
  One pass through the body of \<^verbatim>\<open>while True\<close>: it raises, or leaves the loop
  (\<^verbatim>\<open>break\<close>), or reaches the end of the body with a new state.
  \<^verbatim>\<open>
  pages += 1
  wb_data = wb_request(cursor, flag=0)
  if not wb_data:
      break
  transformed = transform_wb_orders(wb_data)
  upsert_orders_to_db(transformed)
  last_row_lcd = wb_data[-1].get("lastChangeDate")
  if not last_row_lcd:
      break
  if prev_cursor == last_row_lcd and len(wb_data) >= 80000:
      bumped = parse_wb_dt_to_utc(last_row_lcd) + timedelta(seconds=1)
      cursor = format_dt_for_wb(bumped)
  else:
      cursor = last_row_lcd
  prev_cursor = last_row_lcd
  time.sleep(WB_SLEEP_SECONDS)
  \<close>
\<close>

datatype step = Break | Continue sync_state

text \<open>The new cursor, lines 286 to 291.\<close>

definition next_cursor :: "config \<Rightarrow> json option \<Rightarrow> json \<Rightarrow> nat \<Rightarrow> error + json" where
  "next_cursor cfg prev last_row_lcd len =
     (if prev = Some last_row_lcd \<and> 80000 \<le> len then
        (case parse_wb_dt_to_utc cfg last_row_lcd of
           Inl e \<Rightarrow> Inl e
         | Inr dt \<Rightarrow>
             (case dt_add dt (1 * us_per_second) of
                Inl e \<Rightarrow> Inl e
              | Inr bumped \<Rightarrow>
                  (case format_dt_for_wb cfg bumped of
                     Inl e \<Rightarrow> Inl e
                   | Inr c \<Rightarrow> Inr (JStr c))))
      else Inr last_row_lcd)"

definition sync_page :: "config \<Rightarrow> env \<Rightarrow> sync_state \<Rightarrow> world \<Rightarrow> (error + step) \<times> world" where
  "sync_page cfg env st w =
     (case wb_request cfg env (cursor st) 0 6 w of
        (wb_data, w1) \<Rightarrow>
          if wb_data = [] then (Inr Break, w1)
          else
            (case transform_wb_orders cfg wb_data of
               Inl e \<Rightarrow> (Inl e, w1)
             | Inr transformed \<Rightarrow>
                 (case upsert_orders_to_db cfg env transformed w1 of
                    (Inl e, w2) \<Rightarrow> (Inl e, w2)
                  | (Inr u, w2) \<Rightarrow>
                      (case get (last wb_data) ''lastChangeDate'' of
                         Inl e \<Rightarrow> (Inl e, w2)
                       | Inr last_row_lcd \<Rightarrow>
                           if \<not> truthy last_row_lcd then (Inr Break, w2)
                           else
                             (case next_cursor cfg (prev_cursor st) last_row_lcd (length wb_data) of
                                Inl e \<Rightarrow> (Inl e, w2)
                              | Inr c \<Rightarrow>
                                  (case sleep (WB_SLEEP_SECONDS cfg) w2 of
                                     (Inl e, w3) \<Rightarrow> (Inl e, w3)
                                   | (Inr u', w3) \<Rightarrow>
                                       (Inr (Continue \<lparr>cursor = c, prev_cursor = Some last_row_lcd,
                                                       pages = pages st + 1\<rparr>), w3)))))))"

text \<open>The loop \<^verbatim>\<open>while True\<close>: it may run forever, and then has no result.\<close>

partial_function (option) incremental_loop ::
    "config \<Rightarrow> env \<Rightarrow> sync_state \<Rightarrow> world \<Rightarrow> ((error + unit) \<times> world) option" where
  "incremental_loop cfg env st w =
     (case sync_page cfg env st w of
        (Inl e, w') \<Rightarrow> Some (Inl e, w')
      | (Inr Break, w') \<Rightarrow> Some (Inr (), w')
      | (Inr (Continue st'), w') \<Rightarrow> incremental_loop cfg env st' w')"

definition incremental_sync ::
    "config \<Rightarrow> env \<Rightarrow> world \<Rightarrow> ((error + unit) \<times> world) option" where
  "incremental_sync cfg env w =
     (case incremental_start cfg env w of
        (Inl e, w1) \<Rightarrow> Some (Inl e, w1)
      | (Inr st, w1) \<Rightarrow> incremental_loop cfg env st w1)"

section \<open>The table of the sink\<close>

text \<open>
  Modelled from the spec: the sink is a REST surface over a single table, "supporting
  filtered select with ordering and limit (for high-water-mark read)" (section 6); its
  server is not part of the repository. The table is the list of its rows, as the sink
  sends them. The \<^verbatim>\<open>last_change_date\<close> of a row is a timestamp with its offset, as
  \<^verbatim>\<open>upsert_orders_to_db\<close> writes it, and stands for an instant, in microseconds; a row
  without such a value has none (a null).
\<close>

definition stored_instant :: "json \<Rightarrow> int option" where
  "stored_instant row =
     (case get row ''last_change_date'' of
        Inr (JStr s) \<Rightarrow>
          (case isoparse s of
             Inr dt \<Rightarrow>
               (case tzinfo dt of
                  Some (TzOffset off) \<Rightarrow> Some (ticks dt - off * us_per_second)
                | _ \<Rightarrow> None)
           | Inl e \<Rightarrow> None)
      | _ \<Rightarrow> None)"

definition has_instant :: "json \<Rightarrow> bool" where
  "has_instant row = (stored_instant row \<noteq> None)"

definition instant_of :: "json \<Rightarrow> int" where
  "instant_of row = (case stored_instant row of Some t \<Rightarrow> t | None \<Rightarrow> 0)"

text \<open>The answer to a select with the parameters \<^verbatim>\<open>order\<close>, \<^verbatim>\<open>limit\<close> and
  \<^verbatim>\<open>select\<close>: the rows in the order asked for, by the instant of
  \<^verbatim>\<open>last_change_date\<close> (in descending order the nulls come first, in ascending order
  last), the first \<open>n\<close> of them, and of each row the column asked for.\<close>

definition order_rows :: "string \<Rightarrow> json list \<Rightarrow> json list" where
  "order_rows by table =
     (let nulls = filter (\<lambda>row. \<not> has_instant row) table;
          vals = filter has_instant table
      in if by = ''last_change_date.desc'' then nulls @ sort_key (\<lambda>row. - instant_of row) vals
         else if by = ''last_change_date.asc'' \<or> by = ''last_change_date''
         then sort_key instant_of vals @ nulls
         else table)"

definition limit_rows :: "string \<Rightarrow> json list \<Rightarrow> json list" where
  "limit_rows n table = (case number n of None \<Rightarrow> table | Some k \<Rightarrow> take (nat k) table)"

definition select_column :: "string \<Rightarrow> json \<Rightarrow> json" where
  "select_column c row = JObj [(c, case get row c of Inr v \<Rightarrow> v | Inl e \<Rightarrow> JNull)]"

definition sink_select :: "(string \<times> string) list \<Rightarrow> json list \<Rightarrow> json" where
  "sink_select query table =
     (let ordered = (case map_of query ''order'' of None \<Rightarrow> table | Some by \<Rightarrow> order_rows by table);
          limited = (case map_of query ''limit'' of None \<Rightarrow> ordered | Some n \<Rightarrow> limit_rows n ordered)
      in JList (case map_of query ''select'' of None \<Rightarrow> limited
                | Some c \<Rightarrow> map (select_column c) limited))"

section \<open>Notions used in the statements\<close>

text \<open>A rate-limit response, and what \<^verbatim>\<open>wb_request\<close> does over \<open>k\<close> of them in a
  row: the same request, then the sleep, \<open>k\<close> times.\<close>

fun is_rate_limited :: "http_outcome \<Rightarrow> bool" where
  "is_rate_limited (Response status body) = (status = 429)"
| "is_rate_limited NetworkError = False"

definition retries :: "config \<Rightarrow> json \<Rightarrow> int \<Rightarrow> nat \<Rightarrow> event list" where
  "retries cfg date_from flag k =
     concat (replicate k [WbGet date_from flag, Sleep (max (WB_SLEEP_SECONDS cfg) 65)])"

text \<open>A request that fails, or whose response \<^verbatim>\<open>raise_for_status\<close> refuses.\<close>

fun is_failure :: "http_outcome \<Rightarrow> bool" where
  "is_failure (Response status body) = is_error_status status"
| "is_failure NetworkError = True"

text \<open>The events of \<^verbatim>\<open>wb_request\<close> and those of \<^verbatim>\<open>upsert_orders_to_db\<close>.\<close>

fun is_fetch :: "event \<Rightarrow> bool" where
  "is_fetch (WbGet date_from flag) = True"
| "is_fetch (Sleep s) = True"
| "is_fetch _ = False"

fun is_upsert :: "event \<Rightarrow> bool" where
  "is_upsert (DbUpsert rows) = True"
| "is_upsert _ = False"

text \<open>The passes of the loop that reach the end of the body: from the state and the
  world before a pass to those before a later pass.\<close>

inductive pages_done :: "config \<Rightarrow> env \<Rightarrow> sync_state \<Rightarrow> world \<Rightarrow> sync_state \<Rightarrow> world \<Rightarrow> bool"
  for cfg :: config and env :: env where
  no_page: "pages_done cfg env st w st w"
| next_page: "sync_page cfg env st w = (Inr (Continue st1), w1) \<Longrightarrow>
     pages_done cfg env st1 w1 st2 w2 \<Longrightarrow> pages_done cfg env st w st2 w2"

text \<open>The UTC instant that a \<^verbatim>\<open>datetime\<close> denotes, its wall-clock time minus its offset,
  in microseconds; the same instant as a \<^verbatim>\<open>datetime\<close> in UTC.\<close>

definition utc_instant :: "config \<Rightarrow> datetime \<Rightarrow> int" where
  "utc_instant cfg dt = ticks dt - utcoffset cfg dt * 1000000"

definition as_utc :: "config \<Rightarrow> datetime \<Rightarrow> datetime" where
  "as_utc cfg dt = \<lparr>ticks = utc_instant cfg dt, tzinfo = Some TzUTC\<rparr>"

text \<open>Midnight at the start of a day, on the clock of Moscow.\<close>

definition msk_midnight :: "int \<Rightarrow> int \<Rightarrow> int \<Rightarrow> datetime" where
  "msk_midnight y m d = \<lparr>ticks = (ymd2ord y m d - 1) * us_per_day, tzinfo = Some TzMSK\<rparr>"

text \<open>The strings of a wall-clock time without offset, as the feed writes them:
  \<^verbatim>\<open>YYYY-MM-DD\<close>, \<^verbatim>\<open>HH:MM:SS\<close>, and an optional fraction of a second (a dot and at
  least one digit).\<close>

definition date_string :: "int \<Rightarrow> int \<Rightarrow> int \<Rightarrow> string" where
  "date_string y m d = pad4 y @ ''-'' @ pad2 m @ ''-'' @ pad2 d"

definition time_string :: "int \<Rightarrow> int \<Rightarrow> int \<Rightarrow> string" where
  "time_string h mi sec = pad2 h @ '':'' @ pad2 mi @ '':'' @ pad2 sec"

definition is_fraction :: "string \<Rightarrow> bool" where
  "is_fraction fr \<longleftrightarrow>
     fr = [] \<or> (hd fr = CHR ''.'' \<and> tl fr \<noteq> [] \<and> list_all is_digit (tl fr))"

section \<open>Concrete inputs\<close>

text \<open>The defaults of the configuration, with the rule of Europe/Moscow of today, on a
  machine whose clock is in UTC.\<close>

definition default_config :: config where
  "default_config =
     \<lparr>OVERLAP_MINUTES = 120, BATCH_SIZE = 500, WB_SLEEP_SECONDS = 65,
      MSK = moscow_utc3, LOCAL_TZ = utc_zone\<rparr>"

text \<open>The rules of Europe/Moscow around 2011-03-27, when the clocks went from 02:00 to
  03:00 (UTC+03:00 to UTC+04:00, at 2011-03-26T23:00:00 UTC): a wall-clock time before
  03:00 of that day has the offset of before the change, as \<^verbatim>\<open>ZoneInfo\<close> gives it for
  \<^verbatim>\<open>fold = 0\<close>.\<close>

definition moscow_2011 :: zone where
  "moscow_2011 =
     \<lparr>utcoffset_wall = (\<lambda>t. if t < (ymd2ord 2011 3 27 - 1) * us_per_day + 3 * 3600 * us_per_second
                             then 10800 else 14400),
      utcoffset_utc = (\<lambda>u. if u < (ymd2ord 2011 3 26 - 1) * us_per_day + 23 * 3600 * us_per_second
                            then 10800 else 14400)\<rparr>"

text \<open>An order that was not cancelled, as the feed sends it, and its sink row; a record
  whose \<^verbatim>\<open>date\<close> is not a timestamp.\<close>

definition order_a1 :: json where
  "order_a1 =
     JObj [(''date'', JStr ''2024-03-01T10:15:30''),
           (''lastChangeDate'', JStr ''2024-03-01T12:00:00''),
           (''cancelDate'', JStr ''0001-01-01T00:00:00''),
           (''isCancel'', JBool False),
           (''srid'', JStr ''a1'')]"

definition row_a1 :: json where
  "row_a1 =
     JObj [(''date'', JStr ''2024-03-01T07:15:30+00:00''),
           (''last_change_date'', JStr ''2024-03-01T09:00:00+00:00''),
           (''warehouse_name'', JNull), (''warehouse_type'', JNull),
           (''country_name'', JNull), (''oblast_okrug_name'', JNull),
           (''region_name'', JNull), (''supplier_article'', JNull),
           (''nm_id'', JNull), (''barcode'', JNull), (''category'', JNull),
           (''subject'', JNull), (''brand'', JNull), (''tech_size'', JNull),
           (''income_id'', JNull), (''is_supply'', JNull),
           (''is_realization'', JNull), (''total_price'', JNull),
           (''discount_percent'', JNull), (''spp'', JNull),
           (''finished_price'', JNull), (''price_with_disc'', JNull),
           (''is_cancel'', JBool False), (''cancel_date'', JNull),
           (''sticker'', JNull), (''g_number'', JNull),
           (''srid'', JStr ''a1'')]"

definition order_bad_date :: json where
  "order_bad_date =
     JObj [(''date'', JStr ''yesterday''),
           (''lastChangeDate'', JStr ''2024-03-01T12:00:00''),
           (''srid'', JStr ''a2'')]"

text \<open>The world before the first request; the state of the loop at a first cursor, and
  after a page that ended on the timestamp of the order above.\<close>

definition world0 :: world where
  "world0 = \<lparr>wb_calls = 0, db_calls = 0, trace = []\<rparr>"

definition state_noon :: sync_state where
  "state_noon = \<lparr>cursor = JStr ''2024-03-01T12:00:00'', prev_cursor = None, pages = 0\<rparr>"

definition state_stuck :: sync_state where
  "state_stuck =
     \<lparr>cursor = JStr ''2024-03-01T12:00:00'',
      prev_cursor = Some (JStr ''2024-03-01T12:00:00''), pages = 1\<rparr>"

text \<open>A feed that answers 429 to every request, and one that answers 429 twice and
  then sends a page; the sink accepts everything.\<close>

definition env_429 :: env where
  "env_429 = \<lparr>wb_resp = (\<lambda>n. Response 429 None), db_resp = (\<lambda>n. Response 201 None)\<rparr>"

definition env_429_twice :: env where
  "env_429_twice =
     \<lparr>wb_resp = (\<lambda>n. if n < 2 then Response 429 None
                      else Response 200 (Some (JList [order_a1]))),
      db_resp = (\<lambda>n. Response 201 None)\<rparr>"

text \<open>A feed that sends one page of one order and then an empty page; a feed whose
  page the sink refuses (status 500); a feed whose page holds the record whose
  \<^verbatim>\<open>date\<close> is not a timestamp.\<close>

definition env_one_page :: env where
  "env_one_page =
     \<lparr>wb_resp = (\<lambda>n. if n = 0 then Response 200 (Some (JList [order_a1]))
                      else Response 200 (Some (JList []))),
      db_resp = (\<lambda>n. Response 201 None)\<rparr>"

definition env_sink_down :: env where
  "env_sink_down =
     \<lparr>wb_resp = (\<lambda>n. Response 200 (Some (JList [order_a1]))),
      db_resp = (\<lambda>n. Response 500 None)\<rparr>"

definition env_bad_date :: env where
  "env_bad_date =
     \<lparr>wb_resp = (\<lambda>n. Response 200 (Some (JList [order_a1, order_bad_date]))),
      db_resp = (\<lambda>n. Response 201 None)\<rparr>"

text \<open>A feed that sends a page of 80000 copies of the same order to every request, and
  a sink whose greatest \<^verbatim>\<open>last_change_date\<close> is 2024-03-01T11:00:00 UTC.\<close>

definition env_big_page :: env where
  "env_big_page =
     \<lparr>wb_resp = (\<lambda>n. Response 200 (Some (JList (replicate 80000 order_a1)))),
      db_resp = (\<lambda>n. if n = 0
                      then Response 200 (Some (JList
                             [JObj [(''last_change_date'', JStr ''2024-03-01T11:00:00+00:00'')]]))
                      else Response 201 None)\<rparr>"

text \<open>A table of three rows, the greatest \<^verbatim>\<open>last_change_date\<close> in the second, and
  a sink that answers the select over a table.\<close>

definition table_3 :: "json list" where
  "table_3 =
     [row_a1,
      JObj [(''srid'', JStr ''a2''), (''last_change_date'', JStr ''2024-03-01T11:00:00+00:00'')],
      JObj [(''srid'', JStr ''a3''), (''last_change_date'', JStr ''2024-03-01T10:30:00+00:00'')]]"

definition env_sink :: "json list \<Rightarrow> env" where
  "env_sink table =
     \<lparr>wb_resp = (\<lambda>n. Response 200 (Some (JList []))),
      db_resp = (\<lambda>n. Response 200 (Some (sink_select params table)))\<rparr>"

section \<open>The record transformer: properties\<close>

lemma transform_wb_orders_list_all2:
  "transform_wb_orders cfg orders = Inr rows \<longleftrightarrow>
   list_all2 (\<lambda>order row. transform_order cfg order = Inr row) orders rows"
proof (induction orders arbitrary: rows)
  case Nil
  then show ?case by auto
next
  case (Cons a orders)
  show ?case
    by (cases rows) (auto split: sum.splits simp: Cons.IH[symmetric])
qed

lemma transform_order_sentinel:
  assumes "transform_order cfg order = Inr row"
    and "get order ''cancelDate'' = Inr (JStr ''0001-01-01T00:00:00'')"
  shows "subscript row ''cancel_date'' = Inr JNull"
proof (cases order)
  case (JObj kvs)
  with assms(2) have c: "dict_get kvs ''cancelDate'' = JStr ''0001-01-01T00:00:00''"
    by (simp add: dict_get_def split: option.splits)
  from assms(1) show ?thesis
    unfolding JObj transform_order.simps c
    by (auto split: sum.splits)
qed (use assms in simp_all)

lemma transform_a1: "transform_wb_orders default_config [order_a1, order_a1] = Inr [row_a1, row_a1]"
  by code_simp

text \<open>
  C5 (as amended). \<^verbatim>\<open>transform_wb_orders\<close> is a function of its argument alone: it
  takes and returns no state of the outside world. It is not total: it returns a list
  exactly when every record of the input transforms, and then the list has one row for
  each record, the \<open>i\<close>-th row being the transform of the \<open>i\<close>-th record; a record
  that does not transform (no \<^verbatim>\<open>date\<close>, a timestamp that does not parse) makes the
  whole call raise.
\<close>

theorem transform_wb_orders_one_row_per_record:
  "transform_wb_orders cfg orders = Inr rows \<longleftrightarrow>
   length rows = length orders \<and>
   (\<forall>i < length orders. transform_order cfg (orders ! i) = Inr (rows ! i))"
  unfolding transform_wb_orders_list_all2 list_all2_conv_all_nth by auto

theorem transform_wb_orders_one_row_per_record_witness:
  "transform_wb_orders default_config [order_a1, order_a1] = Inr [row_a1, row_a1] \<and>
   length [row_a1, row_a1] = length [order_a1, order_a1] \<and>
   transform_order default_config ([order_a1, order_a1] ! 1) = Inr ([row_a1, row_a1] ! 1)"
proof -
  have r: "length [row_a1, row_a1] = length [order_a1, order_a1] \<and>
      (\<forall>i < length [order_a1, order_a1].
         transform_order default_config ([order_a1, order_a1] ! i) = Inr ([row_a1, row_a1] ! i))"
    using transform_wb_orders_one_row_per_record
      [of default_config "[order_a1, order_a1]" "[row_a1, row_a1]"] transform_a1
    by (rule iffD1)
  have "transform_order default_config ([order_a1, order_a1] ! 1) = Inr ([row_a1, row_a1] ! 1)"
    by (rule r [THEN conjunct2, rule_format]) simp
  with r transform_a1 show ?thesis by blast
qed

text \<open>The claim as it was stated fails: a record without \<^verbatim>\<open>date\<close> raises
  \<^verbatim>\<open>KeyError\<close>.\<close>

theorem transform_wb_orders_raises:
  "transform_wb_orders default_config [JObj []] = Inl (KeyError ''date'')"
  by simp

text \<open>
  C6. A record whose \<^verbatim>\<open>cancelDate\<close> is the string \<^verbatim>\<open>0001-01-01T00:00:00\<close> gets a sink
  row whose \<^verbatim>\<open>cancel_date\<close> is \<^verbatim>\<open>None\<close>: for every record of a list that
  \<^verbatim>\<open>transform_wb_orders\<close> transforms, at every position.
\<close>

theorem sentinel_cancel_date_is_null:
  assumes "transform_wb_orders cfg orders = Inr rows"
    and "i < length orders"
    and "get (orders ! i) ''cancelDate'' = Inr (JStr ''0001-01-01T00:00:00'')"
  shows "subscript (rows ! i) ''cancel_date'' = Inr JNull"
proof -
  from assms(1) have "list_all2 (\<lambda>order row. transform_order cfg order = Inr row) orders rows"
    by (simp add: transform_wb_orders_list_all2)
  from this assms(2) have "transform_order cfg (orders ! i) = Inr (rows ! i)"
    by (rule list_all2_nthD)
  from this assms(3) show ?thesis
    by (rule transform_order_sentinel)
qed

theorem sentinel_cancel_date_is_null_witness:
  "transform_wb_orders default_config [order_a1, order_a1] = Inr [row_a1, row_a1] \<and>
   1 < length [order_a1, order_a1] \<and>
   get ([order_a1, order_a1] ! 1) ''cancelDate'' = Inr (JStr ''0001-01-01T00:00:00'') \<and>
   subscript ([row_a1, row_a1] ! 1) ''cancel_date'' = Inr JNull"
proof -
  have h2: "1 < length [order_a1, order_a1]"
    by simp
  have h3: "get ([order_a1, order_a1] ! 1) ''cancelDate'' = Inr (JStr ''0001-01-01T00:00:00'')"
    by (simp add: order_a1_def)
  have "subscript ([row_a1, row_a1] ! 1) ''cancel_date'' = Inr JNull"
    by (rule sentinel_cancel_date_is_null [OF transform_a1 h2 h3])
  with transform_a1 h2 h3 show ?thesis by blast
qed

section \<open>The upstream client: properties\<close>

lemma wb_attempts_rate_limited:
  assumes "\<forall>i<k. is_rate_limited (wb_resp env (wb_calls w + i))" and "k \<le> left"
  shows "wb_attempts cfg env date_from flag attempt left w =
         wb_attempts cfg env date_from flag (attempt + int k) (left - k)
           (w\<lparr>wb_calls := wb_calls w + k, trace := trace w @ retries cfg date_from flag k\<rparr>)"
  using assms
proof (induction k arbitrary: attempt left w)
  case 0
  then show ?case by (simp add: retries_def)
next
  case (Suc k)
  then obtain left' where left: "left = Suc left'" and k: "k \<le> left'"
    by (cases left) auto
  from Suc.prems(1) have "is_rate_limited (wb_resp env (wb_calls w))"
    by (metis add.right_neutral zero_less_Suc)
  then obtain body where r: "wb_resp env (wb_calls w) = Response 429 body"
    by (cases "wb_resp env (wb_calls w)") auto
  let ?w1 = "emit (Sleep (max (WB_SLEEP_SECONDS cfg) 65))
               ((emit (WbGet date_from flag) w)\<lparr>wb_calls := Suc (wb_calls w)\<rparr>)"
  have step: "wb_attempts cfg env date_from flag attempt left w =
              wb_attempts cfg env date_from flag (attempt + 1) left' ?w1"
    by (simp add: left r)
  have "\<forall>i<k. is_rate_limited (wb_resp env (wb_calls ?w1 + i))"
    using Suc.prems(1) by (auto simp: emit_def)
  from Suc.IH[OF this k, of "attempt + 1"] step show ?case
    by (simp add: left emit_def retries_def add.assoc)
qed

text \<open>
  C3 (as amended). Over \<open>k\<close> rate-limit responses in a row, \<^verbatim>\<open>wb_request\<close> sends the
  same request again each time (same \<^verbatim>\<open>dateFrom\<close>, same \<^verbatim>\<open>flag\<close>) after a sleep of
  \<^verbatim>\<open>max(WB_SLEEP_SECONDS, 65)\<close> seconds, and does nothing else. When fewer than
  \<^verbatim>\<open>max_retries\<close> of them are followed by a page, it returns that page. When all
  \<^verbatim>\<open>max_retries\<close> attempts are rate-limited, it returns the empty list.
\<close>

theorem wb_request_rate_limited:
  assumes "\<forall>i<k. is_rate_limited (wb_resp env (wb_calls w + i))"
  shows "(k < max_retries \<and> wb_resp env (wb_calls w + k) = Response 200 (Some (JList page)) \<longrightarrow>
            wb_request cfg env date_from flag max_retries w =
              (page, w\<lparr>wb_calls := wb_calls w + k + 1,
                       trace := trace w @ retries cfg date_from flag k @ [WbGet date_from flag]\<rparr>)) \<and>
         (k = max_retries \<longrightarrow>
            wb_request cfg env date_from flag max_retries w =
              ([], w\<lparr>wb_calls := wb_calls w + k,
                     trace := trace w @ retries cfg date_from flag k\<rparr>)) \<and>
         WB_SLEEP_SECONDS cfg \<le> max (WB_SLEEP_SECONDS cfg) 65"
proof (intro conjI impI)
  assume a: "k < max_retries \<and> wb_resp env (wb_calls w + k) = Response 200 (Some (JList page))"
  then obtain left where left: "max_retries - k = Suc left"
    by (cases "max_retries - k") auto
  from a have "k \<le> max_retries" by simp
  from wb_attempts_rate_limited[OF assms this, of cfg date_from flag 1] a show
    "wb_request cfg env date_from flag max_retries w =
       (page, w\<lparr>wb_calls := wb_calls w + k + 1,
                trace := trace w @ retries cfg date_from flag k @ [WbGet date_from flag]\<rparr>)"
    by (simp add: wb_request_def left emit_def)
next
  assume "k = max_retries"
  with wb_attempts_rate_limited[OF assms, of max_retries cfg date_from flag 1] show
    "wb_request cfg env date_from flag max_retries w =
       ([], w\<lparr>wb_calls := wb_calls w + k, trace := trace w @ retries cfg date_from flag k\<rparr>)"
    by (simp add: wb_request_def)
qed simp

theorem wb_request_rate_limited_witness:
  "is_rate_limited (wb_resp env_429_twice 0) \<and> is_rate_limited (wb_resp env_429_twice 1) \<and>
   wb_resp env_429_twice 2 = Response 200 (Some (JList [order_a1])) \<and>
   wb_request default_config env_429_twice (JStr ''2024-03-01T12:00:00'') 0 6 world0 =
     ([order_a1],
      \<lparr>wb_calls = 3, db_calls = 0,
       trace = [WbGet (JStr ''2024-03-01T12:00:00'') 0, Sleep 65,
                WbGet (JStr ''2024-03-01T12:00:00'') 0, Sleep 65,
                WbGet (JStr ''2024-03-01T12:00:00'') 0]\<rparr>)"
proof -
  have h: "\<forall>i<2. is_rate_limited (wb_resp env_429_twice (wb_calls world0 + i))"
    by (simp add: env_429_twice_def world0_def)
  have g: "(2::nat) < 6 \<and>
      wb_resp env_429_twice (wb_calls world0 + 2) = Response 200 (Some (JList [order_a1]))"
    by (simp add: env_429_twice_def world0_def)
  have "wb_request default_config env_429_twice (JStr ''2024-03-01T12:00:00'') 0 6 world0 =
      ([order_a1], world0\<lparr>wb_calls := wb_calls world0 + 2 + 1,
         trace := trace world0 @ retries default_config (JStr ''2024-03-01T12:00:00'') 0 2 @
                  [WbGet (JStr ''2024-03-01T12:00:00'') 0]\<rparr>)"
    by (rule wb_request_rate_limited [OF h, THEN conjunct1, rule_format, OF g])
  then show ?thesis
    by (simp add: env_429_twice_def world0_def retries_def default_config_def eval_nat_numeral)
qed

text \<open>The claim as it was stated fails: six rate-limit responses in a row make
  \<^verbatim>\<open>wb_request\<close> return the empty list, and the incremental loop takes it for the end
  of the data.\<close>

theorem wb_request_rate_limited_gives_up:
  "wb_request default_config env_429 (JStr ''2024-03-01T12:00:00'') 0 6 world0 =
     ([], \<lparr>wb_calls = 6, db_calls = 0,
           trace = [WbGet (JStr ''2024-03-01T12:00:00'') 0, Sleep 65,
                    WbGet (JStr ''2024-03-01T12:00:00'') 0, Sleep 65,
                    WbGet (JStr ''2024-03-01T12:00:00'') 0, Sleep 65,
                    WbGet (JStr ''2024-03-01T12:00:00'') 0, Sleep 65,
                    WbGet (JStr ''2024-03-01T12:00:00'') 0, Sleep 65,
                    WbGet (JStr ''2024-03-01T12:00:00'') 0, Sleep 65]\<rparr>) \<and>
   fst (sync_page default_config env_429 state_noon world0) = Inr Break"
  by (simp add: sync_page_def state_noon_def wb_request_def env_429_def world0_def emit_def
      default_config_def eval_nat_numeral)

section \<open>One pass of the incremental loop: properties\<close>

lemma isoparse_nonempty: "isoparse s = Inr dt \<Longrightarrow> s \<noteq> []"
  by (auto simp: isoparse_def parse_date_def)

lemma isoparse_json_truthy: "isoparse_json v = Inr dt \<Longrightarrow> truthy v"
  by (cases v rule: isoparse_json.cases) (auto dest: isoparse_nonempty)

lemma parse_wb_dt_to_utc_truthy: "parse_wb_dt_to_utc cfg v = Inr dt \<Longrightarrow> truthy v"
  by (auto simp: parse_wb_dt_to_utc_def split: sum.splits dest: isoparse_json_truthy)

lemma transform_order_last_change_date:
  assumes "transform_order cfg order = Inr row"
  shows "\<exists>lcd dt. get order ''lastChangeDate'' = Inr lcd \<and> truthy lcd \<and>
           parse_wb_dt_to_utc cfg lcd = Inr dt"
proof (cases order)
  case (JObj kvs)
  with assms show ?thesis
    by (auto split: sum.splits option.splits dest: parse_wb_dt_to_utc_truthy)
qed (use assms in simp_all)

lemma transform_wb_orders_last:
  assumes "transform_wb_orders cfg orders = Inr rows" and "orders \<noteq> []"
  shows "transform_order cfg (last orders) = Inr (last rows)"
proof -
  from assms(1) have l: "list_all2 (\<lambda>order row. transform_order cfg order = Inr row) orders rows"
    by (simp add: transform_wb_orders_list_all2)
  then have len: "length orders = length rows"
    by (rule list_all2_lengthD)
  with assms(2) have "rows \<noteq> []" by auto
  from l have "transform_order cfg (orders ! (length orders - 1)) = Inr (rows ! (length orders - 1))"
    by (rule list_all2_nthD) (use assms(2) in simp)
  with assms(2) \<open>rows \<noteq> []\<close> len show ?thesis
    by (simp add: last_conv_nth)
qed

lemma sync_page_empty_page:
  assumes "wb_request cfg env (cursor st) 0 6 w = ([], w')"
  shows "sync_page cfg env st w = (Inr Break, w')"
  using assms by (simp add: sync_page_def)

lemma sync_page_next_page:
  assumes "wb_request cfg env (cursor st) 0 6 w = (wb_data, w1)"
    and "wb_data \<noteq> []"
    and "transform_wb_orders cfg wb_data = Inr rows"
    and "upsert_orders_to_db cfg env rows w1 = (Inr (), w2)"
    and "get (last wb_data) ''lastChangeDate'' = Inr lcd"
    and "truthy lcd"
    and "next_cursor cfg (prev_cursor st) lcd (length wb_data) = Inr c"
    and "0 \<le> WB_SLEEP_SECONDS cfg"
  shows "sync_page cfg env st w =
           (Inr (Continue \<lparr>cursor = c, prev_cursor = Some lcd, pages = pages st + 1\<rparr>),
            emit (Sleep (WB_SLEEP_SECONDS cfg)) w2)"
  using assms by (simp add: sync_page_def sleep_def)

lemma sync_page_continue:
  assumes "wb_request cfg env (cursor st) 0 6 w = (wb_data, w1)"
    and "sync_page cfg env st w = (Inr (Continue st'), w')"
  shows "\<exists>lcd. get (last wb_data) ''lastChangeDate'' = Inr lcd \<and>
           next_cursor cfg (prev_cursor st) lcd (length wb_data) = Inr (cursor st') \<and>
           prev_cursor st' = Some lcd \<and> pages st' = pages st + 1 \<and> wb_data \<noteq> []"
  using assms
  by (auto simp: sync_page_def split: prod.splits sum.splits if_splits)

lemma next_cursor_stuck:
  assumes "next_cursor cfg prev lcd len = Inr c"
  shows "if prev = Some lcd \<and> 80000 \<le> len
         then \<exists>dt s. parse_wb_dt_to_utc cfg lcd = Inr dt \<and>
                format_dt_for_wb cfg (dt\<lparr>ticks := ticks dt + 1000000\<rparr>) = Inr s \<and> c = JStr s
         else c = lcd"
  using assms
  by (auto simp: next_cursor_def dt_add_def us_per_second_def split: sum.splits if_splits)

section \<open>The incremental loop: properties\<close>

lemma loop_of_pages_done:
  assumes "pages_done cfg env st w st1 w1"
  shows "incremental_loop cfg env st w = incremental_loop cfg env st1 w1"
  using assms
proof (induction rule: pages_done.induct)
  case (no_page st w)
  show ?case ..
next
  case (next_page st w st1 w1 st2 w2)
  have "incremental_loop cfg env st w = incremental_loop cfg env st1 w1"
    by (subst incremental_loop.simps) (simp add: next_page.hyps(1))
  with next_page.IH show ?case by simp
qed

lemma loop_result_pass:
  assumes "incremental_loop cfg env st w = Some y"
  shows "\<exists>st1 w1. pages_done cfg env st w st1 w1 \<and>
           ((\<exists>e w'. sync_page cfg env st1 w1 = (Inl e, w') \<and> y = (Inl e, w')) \<or>
            (\<exists>w'. sync_page cfg env st1 w1 = (Inr Break, w') \<and> y = (Inr (), w')))"
proof -
  let ?P = "\<lambda>cfg env st w y. \<exists>st1 w1. pages_done cfg env st w st1 w1 \<and>
           ((\<exists>e w'. sync_page cfg env st1 w1 = (Inl e, w') \<and> y = (Inl e, w')) \<or>
            (\<exists>w'. sync_page cfg env st1 w1 = (Inr Break, w') \<and> y = (Inr (), w')))"
  have step: "?P cfg env st w y"
    if IH: "\<And>cfg env st w y. loop cfg env st w = Some y \<Longrightarrow> ?P cfg env st w y"
      and body: "(case sync_page cfg env st w of
                    (Inl e, w') \<Rightarrow> Some (Inl e, w')
                  | (Inr Break, w') \<Rightarrow> Some (Inr (), w')
                  | (Inr (Continue st'), w') \<Rightarrow> loop cfg env st' w') = Some y"
    for loop cfg env st w y
  proof -
    obtain r w' where sp: "sync_page cfg env st w = (r, w')"
      by (cases "sync_page cfg env st w")
    show ?thesis
    proof (cases r)
      case (Inl e)
      with sp body have "y = (Inl e, w')" by simp
      with sp Inl show ?thesis
        by (blast intro: no_page)
    next
      case (Inr s)
      show ?thesis
      proof (cases s)
        case Break
        with sp Inr body have "y = (Inr (), w')" by simp
        with sp Inr Break show ?thesis
          by (blast intro: no_page)
      next
        case (Continue st')
        with sp Inr body have "loop cfg env st' w' = Some y" by simp
        from IH[OF this] obtain st1 w1 where
          "pages_done cfg env st' w' st1 w1"
          "(\<exists>e w'. sync_page cfg env st1 w1 = (Inl e, w') \<and> y = (Inl e, w')) \<or>
           (\<exists>w'. sync_page cfg env st1 w1 = (Inr Break, w') \<and> y = (Inr (), w'))"
          by blast
        moreover have "sync_page cfg env st w = (Inr (Continue st'), w')"
          using sp Inr Continue by simp
        ultimately show ?thesis
          by (blast intro: next_page)
      qed
    qed
  qed
  show ?thesis
    by (rule incremental_loop.raw_induct [where P = ?P, OF step assms])
qed

text \<open>
  C1 (as amended). The loop of \<^verbatim>\<open>incremental_sync\<close> stops at the first empty page:
  when, after any number of passes that each reached the end of the body, the page
  fetched is empty, the loop returns without an exception. A page that is not empty
  does not end the loop when nothing raises on it: when its records all transform, the
  sink accepts the rows, its last record has a \<^verbatim>\<open>lastChangeDate\<close> that is not empty,
  the next cursor is computed from it and the sleep length is not negative, the pass
  reaches the end of the body and the loop goes on with the next pass, at the new
  cursor. A page that is not empty ends the loop when the pass over it raises: the run
  ends with the exception \<open>e\<close> if and only if some pass raised it.
\<close>

theorem incremental_loop_stops:
  "(pages_done cfg env st w stn wn \<and> wb_request cfg env (cursor stn) 0 6 wn = ([], w') \<longrightarrow>
      incremental_loop cfg env st w = Some (Inr (), w')) \<and>
   (wb_request cfg env (cursor st) 0 6 w = (wb_data, w1) \<and> wb_data \<noteq> [] \<and>
    transform_wb_orders cfg wb_data = Inr rows \<and>
    upsert_orders_to_db cfg env rows w1 = (Inr (), w2) \<and>
    get (last wb_data) ''lastChangeDate'' = Inr lcd \<and> truthy lcd \<and>
    next_cursor cfg (prev_cursor st) lcd (length wb_data) = Inr c \<and>
    0 \<le> WB_SLEEP_SECONDS cfg \<longrightarrow>
      sync_page cfg env st w =
        (Inr (Continue \<lparr>cursor = c, prev_cursor = Some lcd, pages = pages st + 1\<rparr>),
         emit (Sleep (WB_SLEEP_SECONDS cfg)) w2) \<and>
      incremental_loop cfg env st w =
        incremental_loop cfg env \<lparr>cursor = c, prev_cursor = Some lcd, pages = pages st + 1\<rparr>
          (emit (Sleep (WB_SLEEP_SECONDS cfg)) w2)) \<and>
   (incremental_loop cfg env st w = Some (Inl e, w') \<longleftrightarrow>
      (\<exists>stn wn. pages_done cfg env st w stn wn \<and> sync_page cfg env stn wn = (Inl e, w')))"
proof (intro conjI impI)
  assume a: "pages_done cfg env st w stn wn \<and> wb_request cfg env (cursor stn) 0 6 wn = ([], w')"
  then have "sync_page cfg env stn wn = (Inr Break, w')"
    by (simp add: sync_page_empty_page)
  then have "incremental_loop cfg env stn wn = Some (Inr (), w')"
    by (subst incremental_loop.simps) simp
  with loop_of_pages_done[of cfg env st w stn wn] a
  show "incremental_loop cfg env st w = Some (Inr (), w')"
    by simp
next
  assume a: "wb_request cfg env (cursor st) 0 6 w = (wb_data, w1) \<and> wb_data \<noteq> [] \<and>
    transform_wb_orders cfg wb_data = Inr rows \<and>
    upsert_orders_to_db cfg env rows w1 = (Inr (), w2) \<and>
    get (last wb_data) ''lastChangeDate'' = Inr lcd \<and> truthy lcd \<and>
    next_cursor cfg (prev_cursor st) lcd (length wb_data) = Inr c \<and>
    0 \<le> WB_SLEEP_SECONDS cfg"
  with sync_page_next_page[of cfg env st w wb_data w1 rows w2 lcd c]
  show p: "sync_page cfg env st w =
        (Inr (Continue \<lparr>cursor = c, prev_cursor = Some lcd, pages = pages st + 1\<rparr>),
         emit (Sleep (WB_SLEEP_SECONDS cfg)) w2)"
    by blast
  show "incremental_loop cfg env st w =
        incremental_loop cfg env \<lparr>cursor = c, prev_cursor = Some lcd, pages = pages st + 1\<rparr>
          (emit (Sleep (WB_SLEEP_SECONDS cfg)) w2)"
    by (subst incremental_loop.simps) (simp add: p)
next
  show "incremental_loop cfg env st w = Some (Inl e, w') \<longleftrightarrow>
      (\<exists>stn wn. pages_done cfg env st w stn wn \<and> sync_page cfg env stn wn = (Inl e, w'))"
  proof
    assume "incremental_loop cfg env st w = Some (Inl e, w')"
    from loop_result_pass[OF this] obtain stn wn where
      p: "pages_done cfg env st w stn wn" and
      c: "sync_page cfg env stn wn = (Inl e, w')"
      by auto
    then show "\<exists>stn wn. pages_done cfg env st w stn wn \<and> sync_page cfg env stn wn = (Inl e, w')"
      by blast
  next
    assume "\<exists>stn wn. pages_done cfg env st w stn wn \<and> sync_page cfg env stn wn = (Inl e, w')"
    then obtain stn wn where p: "pages_done cfg env st w stn wn"
      and s: "sync_page cfg env stn wn = (Inl e, w')"
      by blast
    from s have "incremental_loop cfg env stn wn = Some (Inl e, w')"
      by (subst incremental_loop.simps) simp
    with loop_of_pages_done[OF p] show "incremental_loop cfg env st w = Some (Inl e, w')"
      by simp
  qed
qed

lemma one_page_second_fetch: "wb_request default_config env_one_page
      (cursor \<lparr>cursor = JStr ''2024-03-01T12:00:00'',
           prev_cursor = Some (JStr ''2024-03-01T12:00:00''), pages = 1\<rparr>) 0 6
      \<lparr>wb_calls = 1, db_calls = 1,
       trace = [WbGet (JStr ''2024-03-01T12:00:00'') 0, DbUpsert [row_a1], Sleep 65]\<rparr> =
     ([], \<lparr>wb_calls = 2, db_calls = 1,
       trace = [WbGet (JStr ''2024-03-01T12:00:00'') 0, DbUpsert [row_a1], Sleep 65,
                WbGet (JStr ''2024-03-01T12:00:00'') 0]\<rparr>)"
  by code_simp

lemma one_page_fetch: "wb_request default_config env_one_page (cursor state_noon) 0 6 world0 =
     ([order_a1], \<lparr>wb_calls = 1, db_calls = 0, trace = [WbGet (JStr ''2024-03-01T12:00:00'') 0]\<rparr>)"
  by code_simp

lemma one_page_upsert: "upsert_orders_to_db default_config env_one_page [row_a1]
       \<lparr>wb_calls = 1, db_calls = 0, trace = [WbGet (JStr ''2024-03-01T12:00:00'') 0]\<rparr> =
     (Inr (), \<lparr>wb_calls = 1, db_calls = 1,
        trace = [WbGet (JStr ''2024-03-01T12:00:00'') 0, DbUpsert [row_a1]]\<rparr>)"
  by code_simp

lemma a1_page_transforms: "transform_wb_orders default_config [order_a1] = Inr [row_a1]"
  by code_simp

theorem incremental_loop_stops_witness:
  "sync_page default_config env_one_page state_noon world0 =
     (Inr (Continue \<lparr>cursor = JStr ''2024-03-01T12:00:00'',
                     prev_cursor = Some (JStr ''2024-03-01T12:00:00''), pages = 1\<rparr>),
      \<lparr>wb_calls = 1, db_calls = 1,
       trace = [WbGet (JStr ''2024-03-01T12:00:00'') 0, DbUpsert [row_a1], Sleep 65]\<rparr>) \<and>
   incremental_loop default_config env_one_page state_noon world0 =
     Some (Inr (),
       \<lparr>wb_calls = 2, db_calls = 1,
        trace = [WbGet (JStr ''2024-03-01T12:00:00'') 0, DbUpsert [row_a1], Sleep 65,
                 WbGet (JStr ''2024-03-01T12:00:00'') 0]\<rparr>)"
proof -
  let ?w1 = "\<lparr>wb_calls = 1, db_calls = 0, trace = [WbGet (JStr ''2024-03-01T12:00:00'') 0]\<rparr>"
  let ?w2 = "\<lparr>wb_calls = 1, db_calls = 1,
        trace = [WbGet (JStr ''2024-03-01T12:00:00'') 0, DbUpsert [row_a1]]\<rparr>"
  let ?st1 = "\<lparr>cursor = JStr ''2024-03-01T12:00:00'',
               prev_cursor = Some (JStr ''2024-03-01T12:00:00''), pages = 1\<rparr>"
  let ?w3 = "\<lparr>wb_calls = 1, db_calls = 1,
       trace = [WbGet (JStr ''2024-03-01T12:00:00'') 0, DbUpsert [row_a1], Sleep 65]\<rparr>"
  have lcd: "get (last [order_a1]) ''lastChangeDate'' = Inr (JStr ''2024-03-01T12:00:00'')"
    by (simp add: order_a1_def)
  have nc: "next_cursor default_config (prev_cursor state_noon) (JStr ''2024-03-01T12:00:00'')
              (length [order_a1]) = Inr (JStr ''2024-03-01T12:00:00'')"
    by (simp add: next_cursor_def state_noon_def)
  have "sync_page default_config env_one_page state_noon world0 =
        (Inr (Continue \<lparr>cursor = JStr ''2024-03-01T12:00:00'',
             prev_cursor = Some (JStr ''2024-03-01T12:00:00''), pages = pages state_noon + 1\<rparr>),
         emit (Sleep (WB_SLEEP_SECONDS default_config)) ?w2)"
    using incremental_loop_stops [where cfg = default_config and env = env_one_page
        and st = state_noon and w = world0 and wb_data = "[order_a1]" and ?w1.0 = ?w1
        and rows = "[row_a1]" and ?w2.0 = ?w2 and lcd = "JStr ''2024-03-01T12:00:00''"
        and c = "JStr ''2024-03-01T12:00:00''", THEN conjunct2, THEN conjunct1]
      one_page_fetch a1_page_transforms one_page_upsert lcd nc
    by (simp add: default_config_def)
  then have first: "sync_page default_config env_one_page state_noon world0 = (Inr (Continue ?st1), ?w3)"
    by (simp add: state_noon_def default_config_def emit_def)
  have "pages_done default_config env_one_page state_noon world0 ?st1 ?w3"
    by (rule next_page [OF first no_page])
  with one_page_second_fetch
  have "incremental_loop default_config env_one_page state_noon world0 =
     Some (Inr (),
       \<lparr>wb_calls = 2, db_calls = 1,
        trace = [WbGet (JStr ''2024-03-01T12:00:00'') 0, DbUpsert [row_a1], Sleep 65,
                 WbGet (JStr ''2024-03-01T12:00:00'') 0]\<rparr>)"
    by (intro incremental_loop_stops [THEN conjunct1, rule_format]) blast
  with first show ?thesis by simp
qed

text \<open>The claim as it was stated fails: a page that is not empty ends the loop when
  the sink refuses its rows, and when a record on it has a \<^verbatim>\<open>date\<close> that is not a
  timestamp.\<close>

theorem incremental_loop_ends_on_nonempty_page:
  "fst (wb_request default_config env_sink_down (cursor state_noon) 0 6 world0) = [order_a1] \<and>
   incremental_loop default_config env_sink_down state_noon world0 =
     Some (Inl (HTTPError 500),
       \<lparr>wb_calls = 1, db_calls = 1,
        trace = [WbGet (JStr ''2024-03-01T12:00:00'') 0, DbUpsert [row_a1]]\<rparr>) \<and>
   fst (wb_request default_config env_bad_date (cursor state_noon) 0 6 world0) =
     [order_a1, order_bad_date] \<and>
   incremental_loop default_config env_bad_date state_noon world0 =
     Some (Inl ValueError,
       \<lparr>wb_calls = 1, db_calls = 0, trace = [WbGet (JStr ''2024-03-01T12:00:00'') 0]\<rparr>)"
proof -
  have "sync_page default_config env_sink_down state_noon world0 =
      (Inl (HTTPError 500),
       \<lparr>wb_calls = 1, db_calls = 1,
        trace = [WbGet (JStr ''2024-03-01T12:00:00'') 0, DbUpsert [row_a1]]\<rparr>)"
    by code_simp
  then have 1: "incremental_loop default_config env_sink_down state_noon world0 =
     Some (Inl (HTTPError 500),
       \<lparr>wb_calls = 1, db_calls = 1,
        trace = [WbGet (JStr ''2024-03-01T12:00:00'') 0, DbUpsert [row_a1]]\<rparr>)"
    by (subst incremental_loop.simps) simp
  have "sync_page default_config env_bad_date state_noon world0 =
      (Inl ValueError,
       \<lparr>wb_calls = 1, db_calls = 0, trace = [WbGet (JStr ''2024-03-01T12:00:00'') 0]\<rparr>)"
    by code_simp
  then have 2: "incremental_loop default_config env_bad_date state_noon world0 =
     Some (Inl ValueError,
       \<lparr>wb_calls = 1, db_calls = 0, trace = [WbGet (JStr ''2024-03-01T12:00:00'') 0]\<rparr>)"
    by (subst incremental_loop.simps) simp
  have 3: "fst (wb_request default_config env_sink_down (cursor state_noon) 0 6 world0) = [order_a1]"
    by code_simp
  have 4: "fst (wb_request default_config env_bad_date (cursor state_noon) 0 6 world0) =
     [order_a1, order_bad_date]"
    by code_simp
  from 1 2 3 4 show ?thesis by simp
qed

section \<open>The cursor: properties\<close>

lemma transform_wb_orders_replicate:
  "transform_order cfg order = Inr row \<Longrightarrow>
   transform_wb_orders cfg (replicate n order) = Inr (replicate n row)"
  by (induction n) auto

lemma upsert_batches_ok:
  assumes "\<forall>i. \<not> is_failure (db_resp env i)"
  shows "\<exists>w'. upsert_batches env n rows w = (Inr (), w')"
  using assms
proof (induction env n rows w rule: upsert_batches.induct)
  case (1 env n rows w)
  show ?case
  proof (cases "rows = [] \<or> n = 0")
    case True
    then show ?thesis by (subst upsert_batches.simps) simp
  next
    case False
    from "1.prems" have "\<not> is_failure (db_resp env (db_calls w))"
      by simp
    then obtain status body where
      r: "db_resp env (db_calls w) = Response status body" "\<not> is_error_status status"
      by (cases "db_resp env (db_calls w)") auto
    from "1.IH"[OF False r(1) r(2) "1.prems"] False r show ?thesis
      by (subst upsert_batches.simps) simp
  qed
qed

lemma upsert_orders_to_db_ok:
  assumes "\<forall>i. \<not> is_failure (db_resp env i)" and "BATCH_SIZE cfg \<noteq> 0"
  shows "\<exists>w'. upsert_orders_to_db cfg env rows w = (Inr (), w')"
  using assms upsert_batches_ok[OF assms(1), of "nat (BATCH_SIZE cfg)" rows w]
  by (auto simp: upsert_orders_to_db_def)

lemma sync_page_good_page:
  assumes "wb_request cfg env (cursor st) 0 6 w = (wb_data, w1)"
    and "wb_data \<noteq> []"
    and "transform_wb_orders cfg wb_data = Inr rows"
    and "upsert_orders_to_db cfg env rows w1 = (Inr (), w2)"
    and "get (last wb_data) ''lastChangeDate'' = Inr lcd"
    and "next_cursor cfg (prev_cursor st) lcd (length wb_data) = Inr c"
    and "0 \<le> WB_SLEEP_SECONDS cfg"
  shows "sync_page cfg env st w =
           (Inr (Continue \<lparr>cursor = c, prev_cursor = Some lcd, pages = pages st + 1\<rparr>),
            emit (Sleep (WB_SLEEP_SECONDS cfg)) w2)"
proof -
  from transform_order_last_change_date[OF transform_wb_orders_last[OF assms(3) assms(2)]] assms(5)
  have "truthy lcd" by auto
  with assms show ?thesis
    by (simp add: sync_page_def sleep_def)
qed

text \<open>
  C2. When a pass of the loop reaches the end of the body, on a page \<open>wb_data\<close> whose
  last record has the \<^verbatim>\<open>lastChangeDate\<close> \<open>lcd\<close>: if the page has at least 80000
  records and \<open>lcd\<close> equals \<^verbatim>\<open>prev_cursor\<close>, the new cursor is
  \<^verbatim>\<open>format_dt_for_wb\<close> of the instant of \<open>lcd\<close> plus one second (1000000
  microseconds); otherwise the new cursor is \<open>lcd\<close> itself, the value as the feed
  sent it.
\<close>

theorem stall_guard_next_cursor:
  assumes "wb_request cfg env (cursor st) 0 6 w = (wb_data, w1)"
    and "sync_page cfg env st w = (Inr (Continue st'), w')"
    and "get (last wb_data) ''lastChangeDate'' = Inr lcd"
  shows "if prev_cursor st = Some lcd \<and> 80000 \<le> length wb_data
         then \<exists>dt s. parse_wb_dt_to_utc cfg lcd = Inr dt \<and>
                format_dt_for_wb cfg (dt\<lparr>ticks := ticks dt + 1000000\<rparr>) = Inr s \<and>
                cursor st' = JStr s
         else cursor st' = lcd"
proof -
  from sync_page_continue[OF assms(1) assms(2)] assms(3)
  have "next_cursor cfg (prev_cursor st) lcd (length wb_data) = Inr (cursor st')"
    by auto
  then show ?thesis
    by (rule next_cursor_stuck)
qed

lemma a1_transforms: "transform_order default_config order_a1 = Inr row_a1"
  by code_simp

lemma wb_request_first_page:
  assumes "wb_resp env (wb_calls w) = Response 200 (Some (JList page))" and "0 < max_retries"
  shows "wb_request cfg env date_from flag max_retries w =
           (page, (emit (WbGet date_from flag) w)\<lparr>wb_calls := Suc (wb_calls w)\<rparr>)"
  using assms by (cases max_retries) (simp_all add: wb_request_def)

lemma big_page_fetch:
  "wb_request default_config env_big_page (JStr ''2024-03-01T12:00:00'') 0 6 w =
     (replicate 80000 order_a1,
      (emit (WbGet (JStr ''2024-03-01T12:00:00'') 0) w)\<lparr>wb_calls := Suc (wb_calls w)\<rparr>)"
  by (rule wb_request_first_page) (simp_all add: env_big_page_def)

lemma parse_noon:
  "parse_wb_dt_to_utc default_config (JStr ''2024-03-01T12:00:00'') =
     Inr \<lparr>ticks = 63844880400000000, tzinfo = Some TzUTC\<rparr>"
  by code_simp

lemma format_noon_plus_1s:
  "format_dt_for_wb default_config \<lparr>ticks = 63844880401000000, tzinfo = Some TzUTC\<rparr> =
     Inr ''2024-03-01T12:00:01''"
  by code_simp

lemma next_cursor_stuck_noon: "next_cursor default_config (Some (JStr ''2024-03-01T12:00:00'')) (JStr ''2024-03-01T12:00:00'') 80000 =
     Inr (JStr ''2024-03-01T12:00:01'')"
  by (simp add: next_cursor_def parse_noon dt_add_def in_range_def max_ticks_def us_per_second_def
      format_noon_plus_1s)

lemma next_cursor_first_noon: "next_cursor default_config None (JStr ''2024-03-01T12:00:00'') 80000 =
     Inr (JStr ''2024-03-01T12:00:00'')"
  by (simp add: next_cursor_def)


lemma a1_last_change_date:
  "get (last (replicate 80000 order_a1)) ''lastChangeDate'' = Inr (JStr ''2024-03-01T12:00:00'')"
  by (simp add: order_a1_def)

lemma big_page_pass:
  assumes "cursor st = JStr ''2024-03-01T12:00:00''"
    and "next_cursor default_config (prev_cursor st) (JStr ''2024-03-01T12:00:00'') 80000 = Inr c"
  shows "\<exists>w'. sync_page default_config env_big_page st w =
     (Inr (Continue \<lparr>cursor = c, prev_cursor = Some (JStr ''2024-03-01T12:00:00''),
                     pages = pages st + 1\<rparr>), w')"
proof -
  let ?w1 = "(emit (WbGet (JStr ''2024-03-01T12:00:00'') 0) w)\<lparr>wb_calls := Suc (wb_calls w)\<rparr>"
  have f: "wb_request default_config env_big_page (cursor st) 0 6 w =
      (replicate 80000 order_a1, ?w1)"
    by (simp add: assms(1) big_page_fetch)
  have t: "transform_wb_orders default_config (replicate 80000 order_a1) = Inr (replicate 80000 row_a1)"
    by (rule transform_wb_orders_replicate [OF a1_transforms])
  have "\<forall>i. \<not> is_failure (db_resp env_big_page i)"
    by (simp add: env_big_page_def is_error_status_def)
  moreover have "BATCH_SIZE default_config \<noteq> 0"
    by (simp add: default_config_def)
  ultimately obtain w2 where
    u: "upsert_orders_to_db default_config env_big_page (replicate 80000 row_a1) ?w1 = (Inr (), w2)"
    using upsert_orders_to_db_ok by blast
  have n: "next_cursor default_config (prev_cursor st) (JStr ''2024-03-01T12:00:00'')
             (length (replicate 80000 order_a1)) = Inr c"
    by (simp add: assms(2))
  have "sync_page default_config env_big_page st w =
      (Inr (Continue \<lparr>cursor = c, prev_cursor = Some (JStr ''2024-03-01T12:00:00''),
                      pages = pages st + 1\<rparr>),
       emit (Sleep (WB_SLEEP_SECONDS default_config)) w2)"
    by (rule sync_page_good_page [OF f _ t u a1_last_change_date n])
       (simp_all add: default_config_def)
  then show ?thesis
    by blast
qed

lemma big_page_stuck_pass:
  "\<exists>w'. sync_page default_config env_big_page state_stuck world0 =
     (Inr (Continue \<lparr>cursor = JStr ''2024-03-01T12:00:01'',
                     prev_cursor = Some (JStr ''2024-03-01T12:00:00''), pages = 2\<rparr>), w')"
  using big_page_pass [of state_stuck "JStr ''2024-03-01T12:00:01''" world0]
  by (simp add: state_stuck_def next_cursor_stuck_noon)

lemma big_page_first_pass:
  "\<exists>w'. sync_page default_config env_big_page state_noon w =
     (Inr (Continue \<lparr>cursor = JStr ''2024-03-01T12:00:00'',
                     prev_cursor = Some (JStr ''2024-03-01T12:00:00''), pages = 1\<rparr>), w')"
  using big_page_pass [of state_noon "JStr ''2024-03-01T12:00:00''" w]
  by (simp add: state_noon_def next_cursor_first_noon)

theorem stall_guard_next_cursor_witness:
  "fst (wb_request default_config env_big_page (cursor state_stuck) 0 6 world0) =
     replicate 80000 order_a1 \<and>
   prev_cursor state_stuck = Some (JStr ''2024-03-01T12:00:00'') \<and>
   get (last (replicate 80000 order_a1)) ''lastChangeDate'' = Inr (JStr ''2024-03-01T12:00:00'') \<and>
   (\<exists>w'. sync_page default_config env_big_page state_stuck world0 =
      (Inr (Continue \<lparr>cursor = JStr ''2024-03-01T12:00:01'',
                      prev_cursor = Some (JStr ''2024-03-01T12:00:00''), pages = 2\<rparr>), w')) \<and>
   (\<exists>dt. parse_wb_dt_to_utc default_config (JStr ''2024-03-01T12:00:00'') = Inr dt \<and>
      format_dt_for_wb default_config (dt\<lparr>ticks := ticks dt + 1000000\<rparr>) =
        Inr ''2024-03-01T12:00:01'')"
proof -
  let ?st' = "\<lparr>cursor = JStr ''2024-03-01T12:00:01'',
               prev_cursor = Some (JStr ''2024-03-01T12:00:00''), pages = 2\<rparr>"
  obtain w1 where f: "wb_request default_config env_big_page (cursor state_stuck) 0 6 world0 =
      (replicate 80000 order_a1, w1)"
    by (simp add: state_stuck_def big_page_fetch)
  from big_page_stuck_pass obtain w' where
    p: "sync_page default_config env_big_page state_stuck world0 = (Inr (Continue ?st'), w')"
    by blast
  have c: "prev_cursor state_stuck = Some (JStr ''2024-03-01T12:00:00'') \<and>
      80000 \<le> length (replicate 80000 order_a1)"
    by (simp add: state_stuck_def)
  have "\<exists>dt s. parse_wb_dt_to_utc default_config (JStr ''2024-03-01T12:00:00'') = Inr dt \<and>
      format_dt_for_wb default_config (dt\<lparr>ticks := ticks dt + 1000000\<rparr>) = Inr s \<and>
      cursor ?st' = JStr s"
    using stall_guard_next_cursor [OF f p a1_last_change_date] c
    by (simp only: if_True)
  then have "\<exists>dt. parse_wb_dt_to_utc default_config (JStr ''2024-03-01T12:00:00'') = Inr dt \<and>
      format_dt_for_wb default_config (dt\<lparr>ticks := ticks dt + 1000000\<rparr>) =
        Inr ''2024-03-01T12:00:01''"
    by auto
  with f p c a1_last_change_date show ?thesis
    by auto
qed

text \<open>
  C7. \<^verbatim>\<open>incremental_sync\<close> enters the loop exactly when the sink gave a high-water mark
  \<open>T\<close> such that \<open>T\<close> minus \<^verbatim>\<open>OVERLAP_MINUTES\<close> minutes is a \<^verbatim>\<open>datetime\<close> that
  \<^verbatim>\<open>format_dt_for_wb\<close> formats, and then the first cursor is the formatting of that
  instant, \<open>T\<close> minus \<^verbatim>\<open>OVERLAP_MINUTES\<close> times 60000000 microseconds.
\<close>

theorem overlap_start:
  "incremental_start cfg env w = (Inr st, w1) \<longleftrightarrow>
   (\<exists>T c. get_db_max_last_change_date_utc cfg env w = (Inr T, w1) \<and>
      in_range (ticks T - OVERLAP_MINUTES cfg * 60 * 1000000) \<and>
      format_dt_for_wb cfg (T\<lparr>ticks := ticks T - OVERLAP_MINUTES cfg * 60 * 1000000\<rparr>) = Inr c \<and>
      st = \<lparr>cursor = JStr c, prev_cursor = None, pages = 0\<rparr>)"
  by (auto simp: incremental_start_def dt_add_def us_per_second_def
      split: prod.splits sum.splits if_splits)

text \<open>
  C10. \<^verbatim>\<open>prev_cursor\<close> is \<^verbatim>\<open>None\<close> when the loop starts, so the first pass that
  reaches the end of the body sets the cursor to the \<^verbatim>\<open>lastChangeDate\<close> of the last
  record as the feed sent it, whatever the size of the page and whatever the first
  cursor was; \<^verbatim>\<open>prev_cursor\<close> becomes that same value.
\<close>

theorem first_page_never_bumps:
  assumes "incremental_start cfg env w = (Inr st0, w0)"
    and "wb_request cfg env (cursor st0) 0 6 w0 = (wb_data, w1)"
    and "sync_page cfg env st0 w0 = (Inr (Continue st1), w2)"
  shows "prev_cursor st0 = None \<and>
         get (last wb_data) ''lastChangeDate'' = Inr (cursor st1) \<and>
         prev_cursor st1 = Some (cursor st1)"
proof -
  from assms(1) have p: "prev_cursor st0 = None"
    by (auto simp: incremental_start_def split: prod.splits sum.splits)
  from sync_page_continue[OF assms(2) assms(3)] obtain lcd where
    l: "get (last wb_data) ''lastChangeDate'' = Inr lcd"
      "next_cursor cfg (prev_cursor st0) lcd (length wb_data) = Inr (cursor st1)"
      "prev_cursor st1 = Some lcd"
    by blast
  from l(2) p have "cursor st1 = lcd"
    by (simp add: next_cursor_def)
  with p l show ?thesis by simp
qed

lemma parse_db_max:
  "isoparse ''2024-03-01T11:00:00+00:00'' =
     Inr \<lparr>ticks = 63844887600000000, tzinfo = Some (TzOffset 0)\<rparr>"
  by code_simp

lemma format_noon:
  "format_dt_for_wb default_config \<lparr>ticks = 63844880400000000, tzinfo = Some TzUTC\<rparr> =
     Inr ''2024-03-01T12:00:00''"
  by code_simp

lemma big_page_start:
  "incremental_start default_config env_big_page world0 =
     (Inr state_noon, \<lparr>wb_calls = 0, db_calls = 1, trace = [DbSelect params]\<rparr>)"
proof -
  have "get_db_max_last_change_date_utc default_config env_big_page world0 =
      (Inr \<lparr>ticks = 63844887600000000, tzinfo = Some TzUTC\<rparr>,
       \<lparr>wb_calls = 0, db_calls = 1, trace = [DbSelect params]\<rparr>)"
    by (simp add: get_db_max_last_change_date_utc_def env_big_page_def world0_def emit_def
        is_error_status_def parse_db_max astimezone_def utcoffset_def fromutc_offset_def
        in_range_def max_ticks_def us_per_second_def Let_def)
  moreover have "OVERLAP_MINUTES default_config = 120"
    by (simp add: default_config_def)
  ultimately show ?thesis
    by (simp add: incremental_start_def dt_add_def in_range_def max_ticks_def us_per_second_def
        format_noon state_noon_def)
qed


lemma db_max_noon:
  "get_db_max_last_change_date_utc default_config env_big_page world0 =
     (Inr \<lparr>ticks = 63844887600000000, tzinfo = Some TzUTC\<rparr>,
      \<lparr>wb_calls = 0, db_calls = 1, trace = [DbSelect params]\<rparr>)"
  by (simp add: get_db_max_last_change_date_utc_def env_big_page_def world0_def emit_def
      is_error_status_def parse_db_max astimezone_def utcoffset_def fromutc_offset_def
      in_range_def max_ticks_def us_per_second_def Let_def)

lemma isoformat_db_max:
  "isoformat default_config \<lparr>ticks = 63844887600000000, tzinfo = Some TzUTC\<rparr> =
     ''2024-03-01T11:00:00+00:00''"
  by code_simp

theorem overlap_start_witness:
  "incremental_start default_config env_big_page world0 =
     (Inr state_noon, \<lparr>wb_calls = 0, db_calls = 1, trace = [DbSelect params]\<rparr>) \<and>
   OVERLAP_MINUTES default_config = 120 \<and>
   (\<exists>T. get_db_max_last_change_date_utc default_config env_big_page world0 =
           (Inr T, \<lparr>wb_calls = 0, db_calls = 1, trace = [DbSelect params]\<rparr>) \<and>
         isoformat default_config T = ''2024-03-01T11:00:00+00:00'' \<and>
         format_dt_for_wb default_config (T\<lparr>ticks := ticks T - 120 * 60 * 1000000\<rparr>) =
           Inr ''2024-03-01T12:00:00'' \<and>
         cursor state_noon = JStr ''2024-03-01T12:00:00'')"
proof -
  have m: "OVERLAP_MINUTES default_config = 120"
    by (simp add: default_config_def)
  from overlap_start [THEN iffD1, OF big_page_start] obtain T c where
    T: "get_db_max_last_change_date_utc default_config env_big_page world0 =
          (Inr T, \<lparr>wb_calls = 0, db_calls = 1, trace = [DbSelect params]\<rparr>)"
    and f: "format_dt_for_wb default_config
          (T\<lparr>ticks := ticks T - OVERLAP_MINUTES default_config * 60 * 1000000\<rparr>) = Inr c"
    and c: "state_noon = \<lparr>cursor = JStr c, prev_cursor = None, pages = 0\<rparr>"
    by blast
  from c have "c = ''2024-03-01T12:00:00''"
    by (simp add: state_noon_def)
  moreover from T db_max_noon have "T = \<lparr>ticks = 63844887600000000, tzinfo = Some TzUTC\<rparr>"
    by simp
  then have "isoformat default_config T = ''2024-03-01T11:00:00+00:00''"
    by (simp only: isoformat_db_max)
  ultimately show ?thesis
    using big_page_start m T f by (auto simp: state_noon_def)
qed

theorem first_page_never_bumps_witness:
  "incremental_start default_config env_big_page world0 =
     (Inr state_noon, \<lparr>wb_calls = 0, db_calls = 1, trace = [DbSelect params]\<rparr>) \<and>
   cursor state_noon = JStr ''2024-03-01T12:00:00'' \<and>
   fst (wb_request default_config env_big_page (cursor state_noon) 0 6
          \<lparr>wb_calls = 0, db_calls = 1, trace = [DbSelect params]\<rparr>) = replicate 80000 order_a1 \<and>
   (\<exists>w2. sync_page default_config env_big_page state_noon
            \<lparr>wb_calls = 0, db_calls = 1, trace = [DbSelect params]\<rparr> =
      (Inr (Continue \<lparr>cursor = JStr ''2024-03-01T12:00:00'',
                      prev_cursor = Some (JStr ''2024-03-01T12:00:00''), pages = 1\<rparr>), w2)) \<and>
   get (last (replicate 80000 order_a1)) ''lastChangeDate'' = Inr (JStr ''2024-03-01T12:00:00'')"
proof -
  let ?w0 = "\<lparr>wb_calls = 0, db_calls = 1, trace = [DbSelect params]\<rparr>"
  let ?st1 = "\<lparr>cursor = JStr ''2024-03-01T12:00:00'',
               prev_cursor = Some (JStr ''2024-03-01T12:00:00''), pages = 1\<rparr>"
  obtain w1 where f: "wb_request default_config env_big_page (cursor state_noon) 0 6 ?w0 =
      (replicate 80000 order_a1, w1)"
    by (simp add: state_noon_def big_page_fetch)
  from big_page_first_pass obtain w2 where
    p: "sync_page default_config env_big_page state_noon ?w0 = (Inr (Continue ?st1), w2)"
    by blast
  have "get (last (replicate 80000 order_a1)) ''lastChangeDate'' = Inr (cursor ?st1)"
    by (rule first_page_never_bumps [OF big_page_start f p, THEN conjunct2, THEN conjunct1])
  then have "get (last (replicate 80000 order_a1)) ''lastChangeDate'' =
      Inr (JStr ''2024-03-01T12:00:00'')"
    by simp
  with big_page_start f p show ?thesis
    by (auto simp: state_noon_def)
qed

section \<open>The sink gateway: properties\<close>

lemma astimezone_utc:
  assumes "tzinfo dt \<noteq> Some TzUTC"
  shows "astimezone cfg dt TzUTC =
           (if in_range (utc_instant cfg dt)
            then Inr \<lparr>ticks = utc_instant cfg dt, tzinfo = Some TzUTC\<rparr>
            else Inl OverflowError)"
  using assms
  by (simp add: astimezone_def utc_instant_def fromutc_offset_def us_per_second_def Let_def)

lemma sink_select_params:
  "sink_select params table =
     JList (map (select_column ''last_change_date'')
              (take 1 (order_rows ''last_change_date.desc'' table)))"
  by (simp add: sink_select_def params_def limit_rows_def number_def digit_val_def digits_def)

lemma order_rows_desc:
  assumes "list_all has_instant table"
  shows "order_rows ''last_change_date.desc'' table = sort_key (\<lambda>row. - instant_of row) table"
proof -
  from assms have "filter has_instant table = table" "filter (\<lambda>row. \<not> has_instant row) table = []"
    by (simp_all add: list_all_iff)
  then show ?thesis
    by (simp add: order_rows_def)
qed

lemma sort_key_first:
  assumes "sort_key f xs = y # ys"
  shows "y \<in> set xs \<and> (\<forall>x\<in>set xs. f y \<le> f x)"
proof -
  have "set (y # ys) = set xs"
    using assms set_sort[of f xs] by simp
  moreover have "sorted (map f (y # ys))"
    using assms sorted_sort_key[of f xs] by simp
  ultimately show ?thesis
    by auto
qed

lemma sink_select_greatest:
  assumes "list_all has_instant table" and "table \<noteq> []"
  shows "\<exists>row. row \<in> set table \<and> instant_of row = Max (instant_of ` set table) \<and>
           sink_select params table = JList [select_column ''last_change_date'' row]"
proof -
  let ?s = "sort_key (\<lambda>row. - instant_of row) table"
  have "length ?s = length table" by simp
  with assms(2) obtain y ys where s: "?s = y # ys"
    by (cases ?s) auto
  from sort_key_first[OF s] have y: "y \<in> set table" and le: "\<forall>x\<in>set table. instant_of x \<le> instant_of y"
    by auto
  have "Max (instant_of ` set table) = instant_of y"
    by (rule Max_eqI) (use y le in auto)
  moreover have "sink_select params table = JList [select_column ''last_change_date'' y]"
    by (simp add: sink_select_params order_rows_desc[OF assms(1)] s)
  ultimately show ?thesis
    using y by auto
qed

lemma has_instant_row:
  assumes "has_instant row"
  shows "\<exists>s dt off. subscript (select_column ''last_change_date'' row) ''last_change_date'' = Inr (JStr s) \<and>
           isoparse s = Inr dt \<and> tzinfo dt = Some (TzOffset off) \<and>
           instant_of row = utc_instant cfg dt"
  using assms
  by (auto simp: has_instant_def instant_of_def stored_instant_def select_column_def utc_instant_def
      utcoffset_def us_per_second_def split: sum.splits json.splits option.splits tzinfo.splits)

text \<open>
  C8. The sink answers the select of \<^verbatim>\<open>get_db_max_last_change_date_utc\<close> (its
  parameters ask for the rows by descending \<^verbatim>\<open>last_change_date\<close>, and for the first
  one) over a table whose rows each carry a \<^verbatim>\<open>last_change_date\<close>. When the table has
  no rows, the function returns the UTC instant of 2023-01-01T00:00:00 on the clock of
  Moscow; when it has rows, it returns the greatest of the instants of their
  \<^verbatim>\<open>last_change_date\<close>. In both cases the result is a \<^verbatim>\<open>datetime\<close> in UTC, and
  \<^verbatim>\<open>OverflowError\<close> when the instant is outside the range of \<^verbatim>\<open>datetime\<close>.
\<close>

theorem high_water_mark:
  assumes "db_resp env (db_calls w) = Response status (Some (sink_select params table))"
    and "\<not> is_error_status status"
    and "list_all has_instant table"
  shows "(table = [] \<longrightarrow>
            get_db_max_last_change_date_utc cfg env w =
              (if in_range (utc_instant cfg start_msk_2023)
               then Inr \<lparr>ticks = utc_instant cfg start_msk_2023, tzinfo = Some TzUTC\<rparr>
               else Inl OverflowError,
               (emit (DbSelect params) w)\<lparr>db_calls := Suc (db_calls w)\<rparr>)) \<and>
         (table \<noteq> [] \<longrightarrow>
            get_db_max_last_change_date_utc cfg env w =
              (if in_range (Max (instant_of ` set table))
               then Inr \<lparr>ticks = Max (instant_of ` set table), tzinfo = Some TzUTC\<rparr>
               else Inl OverflowError,
               (emit (DbSelect params) w)\<lparr>db_calls := Suc (db_calls w)\<rparr>))"
proof (intro conjI impI)
  assume "table = []"
  then have "sink_select params table = JList []"
    by (simp add: sink_select_params order_rows_def)
  with assms show "get_db_max_last_change_date_utc cfg env w =
              (if in_range (utc_instant cfg start_msk_2023)
               then Inr \<lparr>ticks = utc_instant cfg start_msk_2023, tzinfo = Some TzUTC\<rparr>
               else Inl OverflowError,
               (emit (DbSelect params) w)\<lparr>db_calls := Suc (db_calls w)\<rparr>)"
    by (simp add: get_db_max_last_change_date_utc_def astimezone_utc start_msk_2023_def)
next
  assume "table \<noteq> []"
  from sink_select_greatest[OF assms(3) this] obtain row where
    row: "row \<in> set table" and
    m: "instant_of row = Max (instant_of ` set table)" and
    a: "sink_select params table = JList [select_column ''last_change_date'' row]"
    by blast
  from row assms(3) have "has_instant row"
    by (simp add: list_all_iff)
  from has_instant_row[OF this, of cfg] obtain s dt off where
    v: "subscript (select_column ''last_change_date'' row) ''last_change_date'' = Inr (JStr s)" and
    p: "isoparse s = Inr dt" and z: "tzinfo dt = Some (TzOffset off)" and
    i: "instant_of row = utc_instant cfg dt"
    by blast
  from z have "tzinfo dt \<noteq> Some TzUTC" by simp
  with assms(1,2) a v p have "get_db_max_last_change_date_utc cfg env w =
              (if in_range (utc_instant cfg dt)
               then Inr \<lparr>ticks = utc_instant cfg dt, tzinfo = Some TzUTC\<rparr>
               else Inl OverflowError,
               (emit (DbSelect params) w)\<lparr>db_calls := Suc (db_calls w)\<rparr>)"
    by (simp add: get_db_max_last_change_date_utc_def astimezone_utc)
  with i m show "get_db_max_last_change_date_utc cfg env w =
              (if in_range (Max (instant_of ` set table))
               then Inr \<lparr>ticks = Max (instant_of ` set table), tzinfo = Some TzUTC\<rparr>
               else Inl OverflowError,
               (emit (DbSelect params) w)\<lparr>db_calls := Suc (db_calls w)\<rparr>)"
    by simp
qed

lemma start_2023_utc: "utc_instant default_config start_msk_2023 = 63808117200000000"
  by code_simp

lemma isoformat_start_2023:
  "isoformat default_config \<lparr>ticks = 63808117200000000, tzinfo = Some TzUTC\<rparr> =
     ''2022-12-31T21:00:00+00:00''"
  by code_simp

lemma sink_response:
  "db_resp (env_sink table) (db_calls world0) = Response 200 (Some (sink_select params table))"
  by (simp add: env_sink_def)

lemma table_3_instants:
  "map stored_instant table_3 =
     [Some 63844880400000000, Some 63844887600000000, Some 63844885800000000]"
  by code_simp

lemma table_3_select:
  "sink_select params table_3 =
     JList [JObj [(''last_change_date'', JStr ''2024-03-01T11:00:00+00:00'')]]"
  by code_simp

theorem high_water_mark_witness:
  "list_all has_instant table_3 \<and>
   sink_select params table_3 =
     JList [JObj [(''last_change_date'', JStr ''2024-03-01T11:00:00+00:00'')]] \<and>
   get_db_max_last_change_date_utc default_config (env_sink table_3) world0 =
     (Inr \<lparr>ticks = 63844887600000000, tzinfo = Some TzUTC\<rparr>,
      \<lparr>wb_calls = 0, db_calls = 1, trace = [DbSelect params]\<rparr>) \<and>
   isoformat default_config \<lparr>ticks = 63844887600000000, tzinfo = Some TzUTC\<rparr> =
     ''2024-03-01T11:00:00+00:00'' \<and>
   sink_select params [] = JList [] \<and>
   get_db_max_last_change_date_utc default_config (env_sink []) world0 =
     (Inr \<lparr>ticks = 63808117200000000, tzinfo = Some TzUTC\<rparr>,
      \<lparr>wb_calls = 0, db_calls = 1, trace = [DbSelect params]\<rparr>) \<and>
   isoformat default_config \<lparr>ticks = 63808117200000000, tzinfo = Some TzUTC\<rparr> =
     ''2022-12-31T21:00:00+00:00''"
proof -
  have ok: "\<not> is_error_status 200"
    by (simp add: is_error_status_def)
  have all: "list_all has_instant table_3"
    using table_3_instants by (simp add: table_3_def has_instant_def)
  have none: "list_all has_instant []"
    by simp
  have "get_db_max_last_change_date_utc default_config (env_sink []) world0 =
      (if in_range (utc_instant default_config start_msk_2023)
       then Inr \<lparr>ticks = utc_instant default_config start_msk_2023, tzinfo = Some TzUTC\<rparr>
       else Inl OverflowError,
       (emit (DbSelect params) world0)\<lparr>db_calls := Suc (db_calls world0)\<rparr>)"
    by (rule high_water_mark [OF sink_response ok none, THEN conjunct1, rule_format]) simp
  then have e: "get_db_max_last_change_date_utc default_config (env_sink []) world0 =
     (Inr \<lparr>ticks = 63808117200000000, tzinfo = Some TzUTC\<rparr>,
      \<lparr>wb_calls = 0, db_calls = 1, trace = [DbSelect params]\<rparr>)"
    by (simp add: start_2023_utc in_range_def max_ticks_def world0_def emit_def)
  have m: "Max (instant_of ` set table_3) = 63844887600000000"
    using table_3_instants by (simp add: table_3_def instant_of_def)
  have "get_db_max_last_change_date_utc default_config (env_sink table_3) world0 =
      (if in_range (Max (instant_of ` set table_3))
       then Inr \<lparr>ticks = Max (instant_of ` set table_3), tzinfo = Some TzUTC\<rparr>
       else Inl OverflowError,
       (emit (DbSelect params) world0)\<lparr>db_calls := Suc (db_calls world0)\<rparr>)"
    by (rule high_water_mark [OF sink_response ok all, THEN conjunct2, rule_format])
      (simp add: table_3_def)
  then have n: "get_db_max_last_change_date_utc default_config (env_sink table_3) world0 =
     (Inr \<lparr>ticks = 63844887600000000, tzinfo = Some TzUTC\<rparr>,
      \<lparr>wb_calls = 0, db_calls = 1, trace = [DbSelect params]\<rparr>)"
    by (simp add: m in_range_def max_ticks_def world0_def emit_def)
  have s0: "sink_select params [] = JList []"
    by (simp add: sink_select_params order_rows_def)
  from e n all s0 table_3_select isoformat_start_2023 isoformat_db_max
  show ?thesis by simp
qed

section \<open>The requests of a run\<close>

lemma wb_attempts_trace:
  "\<exists>evs. trace (snd (wb_attempts cfg env date_from flag attempt left w)) = trace w @ evs \<and>
         list_all is_fetch evs"
proof (induction left arbitrary: attempt w)
  case 0
  then show ?case by simp
next
  case (Suc left)
  define ext where "ext w' \<longleftrightarrow> (\<exists>evs. trace w' = trace w @ evs \<and> list_all is_fetch evs)" for w' :: world
  let ?w1 = "(emit (WbGet date_from flag) w)\<lparr>wb_calls := Suc (wb_calls w)\<rparr>"
  have step: "ext (snd (wb_attempts cfg env date_from flag (attempt + 1) left (emit (Sleep s) ?w1)))"
    for s
  proof -
    from Suc.IH[of "attempt + 1" "emit (Sleep s) ?w1"] obtain evs where
      "trace (snd (wb_attempts cfg env date_from flag (attempt + 1) left (emit (Sleep s) ?w1))) =
         trace (emit (Sleep s) ?w1) @ evs" "list_all is_fetch evs"
      by blast
    then show ?thesis
      unfolding ext_def
      by (intro exI[of _ "WbGet date_from flag # Sleep s # evs"]) (simp add: emit_def)
  qed
  have one: "ext ?w1"
    unfolding ext_def by (intro exI[of _ "[WbGet date_from flag]"]) (simp add: emit_def)
  have "ext (snd (wb_attempts cfg env date_from flag attempt (Suc left) w))"
  proof (cases "wb_resp env (wb_calls w)")
    case NetworkError
    with step show ?thesis by (simp add: Let_def)
  next
    case (Response status body)
    show ?thesis
    proof (cases body)
      case None
      with Response step one show ?thesis by (simp add: Let_def)
    next
      case (Some d)
      with Response step one show ?thesis
        by (cases d) (simp_all add: Let_def)
    qed
  qed
  then show ?case
    unfolding ext_def .
qed

lemma wb_request_trace:
  "\<exists>evs. trace (snd (wb_request cfg env date_from flag max_retries w)) = trace w @ evs \<and>
         list_all is_fetch evs"
  unfolding wb_request_def by (rule wb_attempts_trace)

lemma upsert_batches_trace:
  "\<exists>evs. trace (snd (upsert_batches env n rows w)) = trace w @ evs \<and> list_all is_upsert evs"
proof (induction env n rows w rule: upsert_batches.induct)
  case (1 env n rows w)
  define ext where "ext w' \<longleftrightarrow> (\<exists>evs. trace w' = trace w @ evs \<and> list_all is_upsert evs)" for w' :: world
  let ?w1 = "(emit (DbUpsert (take n rows)) w)\<lparr>db_calls := Suc (db_calls w)\<rparr>"
  have one: "ext ?w1"
    unfolding ext_def by (intro exI[of _ "[DbUpsert (take n rows)]"]) (simp add: emit_def)
  have none: "ext w"
    unfolding ext_def by simp
  have "ext (snd (upsert_batches env n rows w))"
  proof (cases "rows = [] \<or> n = 0")
    case True
    with none show ?thesis by (subst upsert_batches.simps) simp
  next
    case False
    show ?thesis
    proof (cases "db_resp env (db_calls w)")
      case NetworkError
      with False one show ?thesis by (subst upsert_batches.simps) simp
    next
      case (Response status body)
      show ?thesis
      proof (cases "is_error_status status")
        case True
        with False Response one show ?thesis by (subst upsert_batches.simps) simp
      next
        case ok: False
        from "1.IH"[OF False Response ok] obtain evs where
          "trace (snd (upsert_batches env n (drop n rows) ?w1)) = trace ?w1 @ evs"
          "list_all is_upsert evs"
          by blast
        then have "ext (snd (upsert_batches env n (drop n rows) ?w1))"
          unfolding ext_def
          by (intro exI[of _ "DbUpsert (take n rows) # evs"]) (simp add: emit_def)
        with False Response ok show ?thesis
          by (subst upsert_batches.simps) simp
      qed
    qed
  qed
  then show ?case
    unfolding ext_def .
qed

lemma upsert_orders_to_db_trace:
  "\<exists>evs. trace (snd (upsert_orders_to_db cfg env rows w)) = trace w @ evs \<and>
         list_all is_upsert evs"
  using upsert_batches_trace[of env "nat (BATCH_SIZE cfg)" rows w]
  by (auto simp: upsert_orders_to_db_def)

section \<open>Calendar, formatting and parsing: properties\<close>

lemma div_step:
  assumes "0 < k"
  shows "(y::int) div k = (y - 1) div k + (if y mod k = 0 then 1 else 0)"
proof -
  define q where "q = (y - 1) div k"
  define r where "r = (y - 1) mod k"
  have y: "y = k * q + (r + 1)" and r: "0 \<le> r" "r < k"
    using assms by (simp_all add: q_def r_def)
  show ?thesis
  proof (cases "r + 1 = k")
    case True
    with y have yk: "y = (q + 1) * k" by (simp add: algebra_simps)
    then have "y div k = q + 1" "y mod k = 0"
      using assms by simp_all
    then show ?thesis by (simp add: q_def)
  next
    case False
    with r have "0 \<le> r + 1" "r + 1 < k" by simp_all
    then have "(k * q + (r + 1)) div k = q" "(k * q + (r + 1)) mod k = r + 1"
      using assms by (simp_all add: div_pos_pos_trivial mod_pos_pos_trivial)
    with y r have "y div k = q" "y mod k \<noteq> 0" by simp_all
    then show ?thesis by (simp add: q_def)
  qed
qed


lemma days_before_year_Suc:
  "days_before_year (y + 1) = days_before_year y + (if is_leap y then 366 else 365)"
proof -
  have d4: "y div 4 = (y - 1) div 4 + (if y mod 4 = 0 then 1 else 0)"
    by (rule div_step) simp
  have d100: "y div 100 = (y - 1) div 100 + (if y mod 100 = 0 then 1 else 0)"
    by (rule div_step) simp
  have d400: "y div 400 = (y - 1) div 400 + (if y mod 400 = 0 then 1 else 0)"
    by (rule div_step) simp
  have m: "y mod 400 = 0 \<Longrightarrow> y mod 100 = 0" "y mod 100 = 0 \<Longrightarrow> y mod 4 = 0"
    using mod_mod_cancel[of 100 400 y] mod_mod_cancel[of 4 100 y] by simp_all
  have "days_before_year (y + 1) = y * 365 + y div 4 - y div 100 + y div 400"
    by (simp add: days_before_year_def)
  also have "\<dots> = days_before_year y + (if is_leap y then 366 else 365)"
    unfolding d4 d100 d400 days_before_year_def is_leap_def
    using m by (cases "y mod 4 = 0"; cases "y mod 100 = 0"; cases "y mod 400 = 0") simp_all
  finally show ?thesis .
qed

lemma days_before_year_mono: "y \<le> z \<Longrightarrow> days_before_year y \<le> days_before_year z"
proof (induction z rule: int_ge_induct)
  case base
  show ?case by simp
next
  case (step i)
  then show ?case by (simp add: days_before_year_Suc)
qed

lemma year_from_finds:
  assumes "days_before_year y < n" and "n \<le> days_before_year (y + 1)"
  shows "y0 \<le> y \<Longrightarrow> year_from n y0 = y"
proof (induction "nat (y - y0)" arbitrary: y0)
  case 0
  then have "y0 = y" by simp
  with assms(2) show ?case by (subst year_from.simps) simp
next
  case (Suc k)
  then have lt: "y0 + 1 \<le> y" by simp
  then have "days_before_year (y0 + 1) \<le> days_before_year y"
    by (rule days_before_year_mono)
  with assms(1) have "\<not> n \<le> days_before_year (y0 + 1)" by simp
  moreover from Suc(2) have "k = nat (y - (y0 + 1))" by simp
  from Suc(1)[OF this lt] have "year_from n (y0 + 1) = y" .
  ultimately show ?case by (subst year_from.simps) simp
qed

lemma days_before_year_upper: "0 \<le> y \<Longrightarrow> days_before_year (y + 1) \<le> 366 * y"
proof (induction y rule: int_ge_induct)
  case base
  show ?case by (simp add: days_before_year_def)
next
  case (step i)
  have "days_before_year (i + 1 + 1) = days_before_year (i + 1) + (if is_leap (i + 1) then 366 else 365)"
    by (rule days_before_year_Suc)
  with step show ?case by (simp split: if_splits)
qed

lemma year_of_ordinal:
  assumes "1 \<le> y" and "days_before_year y < n" and "n \<le> days_before_year (y + 1)"
  shows "year_of n = y"
proof -
  from assms(1) have "days_before_year (y + 1) \<le> 366 * y"
    by (intro days_before_year_upper) simp
  with assms(3) have "n - 1 < y * 366" by simp
  then have "(n - 1) div 366 < y"
    by (simp add: div_less_iff_less_mult)
  then have "(n - 1) div 366 + 1 \<le> y" by simp
  with year_from_finds[OF assms(2) assms(3)] show ?thesis
    by (simp add: year_of_def)
qed

lemma month_cases:
  assumes "1 \<le> m" and "m \<le> (12::int)"
  obtains "m = 1" | "m = 2" | "m = 3" | "m = 4" | "m = 5" | "m = 6"
    | "m = 7" | "m = 8" | "m = 9" | "m = 10" | "m = 11" | "m = 12"
proof -
  from assms have "m = 1 \<or> m = 2 \<or> m = 3 \<or> m = 4 \<or> m = 5 \<or> m = 6 \<or>
      m = 7 \<or> m = 8 \<or> m = 9 \<or> m = 10 \<or> m = 11 \<or> m = 12"
    by presburger
  then show thesis
    using that by blast
qed

lemma month_of_day:
  assumes "1 \<le> m" and "m \<le> 12" and "1 \<le> d" and "d \<le> days_in_month y m"
  shows "month_of y (days_before_month y m + d) = m"
  using assms(1,2)
proof (cases m rule: month_cases)
qed (use assms(3,4) in \<open>auto simp: month_of_def days_before_month_def days_in_month_def
      split: if_splits\<close>)

lemma day_of_year_bounds:
  assumes "1 \<le> m" and "m \<le> 12" and "1 \<le> d" and "d \<le> days_in_month y m"
  shows "1 \<le> days_before_month y m + d \<and>
         days_before_month y m + d \<le> (if is_leap y then 366 else 365)"
  using assms(1,2)
proof (cases m rule: month_cases)
qed (use assms(3,4) in \<open>auto simp: days_before_month_def days_in_month_def split: if_splits\<close>)

lemma ord2ymd_ymd2ord:
  assumes "1 \<le> y" and "1 \<le> m" and "m \<le> 12" and "1 \<le> d" and "d \<le> days_in_month y m"
  shows "ord2ymd (ymd2ord y m d) = (y, m, d)"
proof -
  let ?k = "days_before_month y m + d"
  from day_of_year_bounds[OF assms(2-5)] have k: "1 \<le> ?k" "?k \<le> (if is_leap y then 366 else 365)"
    by simp_all
  have "days_before_year y < ymd2ord y m d"
    using k(1) by (simp add: ymd2ord_def)
  moreover have "ymd2ord y m d \<le> days_before_year (y + 1)"
    using k(2) by (simp add: ymd2ord_def days_before_year_Suc split: if_splits)
  ultimately have "year_of (ymd2ord y m d) = y"
    using assms(1) by (intro year_of_ordinal)
  moreover have "ymd2ord y m d - days_before_year y = ?k"
    by (simp add: ymd2ord_def)
  ultimately show ?thesis
    using month_of_day[OF assms(2-5)] by (simp add: ord2ymd_def Let_def)
qed

lemma digit_cases:
  assumes "0 \<le> k" and "k \<le> (9::int)"
  obtains "k = 0" | "k = 1" | "k = 2" | "k = 3" | "k = 4" | "k = 5" | "k = 6" | "k = 7"
    | "k = 8" | "k = 9"
proof -
  from assms have "k = 0 \<or> k = 1 \<or> k = 2 \<or> k = 3 \<or> k = 4 \<or> k = 5 \<or> k = 6 \<or> k = 7 \<or>
      k = 8 \<or> k = 9"
    by presburger
  then show thesis
    using that by blast
qed

lemma digit_val_digit_char:
  assumes "0 \<le> k" and "k \<le> 9"
  shows "digit_val (digit_char k) = Some k"
  using assms
proof (cases k rule: digit_cases)
qed (simp_all add: digit_val_def digit_char_def digits_def)

lemma digits_val_append:
  "digits_val acc (xs @ ys) =
     (case digits_val acc xs of None \<Rightarrow> None | Some v \<Rightarrow> digits_val v ys)"
  by (induction xs arbitrary: acc) (auto split: option.splits)

lemma digits_val_pad2:
  assumes "0 \<le> n"
  shows "digits_val acc (pad2 n) = Some (100 * acc + n mod 100)"
proof -
  have a: "0 \<le> n div 10 mod 10" "n div 10 mod 10 \<le> 9" "0 \<le> n mod 10" "n mod 10 \<le> 9"
    by simp_all
  have "n mod (10 * 10) = 10 * (n div 10 mod 10) + n mod 10"
    by (rule zmod_zmult2_eq) simp
  then have "n mod 100 = 10 * (n div 10 mod 10) + n mod 10"
    by simp
  with a show ?thesis
    by (simp add: pad2_def digit_val_digit_char)
qed


lemma number_pad2:
  assumes "0 \<le> n" and "n \<le> 99"
  shows "number (pad2 n) = Some n"
  using assms digits_val_pad2[of n 0] by (simp add: number_def pad2_def)

lemma number_pad4:
  assumes "0 \<le> n" and "n \<le> 9999"
  shows "number (pad4 n) = Some n"
proof -
  from assms have q: "0 \<le> n div 100" "n div 100 < 100"
    by simp_all
  then have "n div 100 mod 100 = n div 100"
    by simp
  moreover have "100 * (n div 100) + n mod 100 = n"
    by simp
  ultimately have "digits_val 0 (pad4 n) = Some n"
    using q(1) assms(1)
    by (simp add: pad4_def digits_val_append digits_val_pad2)
  then show ?thesis
    by (simp add: number_def pad4_def pad2_def)
qed

lemma length_pad2 [simp]: "length (pad2 n) = 2"
  by (simp add: pad2_def)

lemma length_pad4 [simp]: "length (pad4 n) = 4"
  by (simp add: pad4_def)

lemma length_date_string [simp]: "length (date_string y m d) = 10"
  by (simp add: date_string_def)

lemma length_time_string [simp]: "length (time_string h mi sec) = 8"
  by (simp add: time_string_def)

lemma days_in_month_le: "days_in_month y m \<le> 31"
  by (simp add: days_in_month_def)

lemma parse_date_string:
  assumes "1 \<le> y" and "y \<le> 9999" and "1 \<le> m" and "m \<le> 12"
    and "1 \<le> d" and "d \<le> days_in_month y m"
  shows "parse_date (date_string y m d) = Some (ymd2ord y m d - 1)"
proof -
  from assms(6) days_in_month_le[of y m] have d: "d \<le> 99" by simp
  have y: "number (pad4 y) = Some y"
    using assms by (intro number_pad4) simp_all
  have m: "number (pad2 m) = Some m"
    using assms by (intro number_pad2) simp_all
  have dd: "number (pad2 d) = Some d"
    using assms d by (intro number_pad2) simp_all
  have "take 4 (date_string y m d) = pad4 y" "take 2 (drop 5 (date_string y m d)) = pad2 m"
    "drop 8 (date_string y m d) = pad2 d" "date_string y m d ! 4 = CHR ''-''"
    "date_string y m d ! 7 = CHR ''-''"
    by (simp_all add: date_string_def nth_append)
  with y m dd assms show ?thesis
    by (simp add: parse_date_def)
qed


lemma digit_val_range: "digit_val c = Some k \<Longrightarrow> 0 \<le> k \<and> k \<le> 9"
  by (auto simp: digit_val_def digits_def split: if_splits)

lemma digits_val_bounds:
  assumes "list_all is_digit xs" and "0 \<le> acc"
  shows "\<exists>v. digits_val acc xs = Some v \<and> acc * 10 ^ length xs \<le> v \<and>
           v < (acc + 1) * 10 ^ length xs"
  using assms
proof (induction xs arbitrary: acc)
  case Nil
  then show ?case by simp
next
  case (Cons c cs)
  from Cons.prems(1) obtain k where k: "digit_val c = Some k"
    by (auto simp: is_digit_def)
  then have r: "0 \<le> k" "k \<le> 9"
    by (auto dest: digit_val_range)
  with Cons.prems have "list_all is_digit cs" "0 \<le> 10 * acc + k"
    by simp_all
  from Cons.IH[OF this] obtain v where
    v: "digits_val (10 * acc + k) cs = Some v" "(10 * acc + k) * 10 ^ length cs \<le> v"
      "v < (10 * acc + k + 1) * 10 ^ length cs"
    by blast
  define P :: int where "P = 10 ^ length cs"
  have p: "0 \<le> P" by (simp add: P_def)
  from r have "acc * 10 \<le> 10 * acc + k" "10 * acc + k + 1 \<le> (acc + 1) * 10"
    by simp_all
  with p have m1: "acc * 10 * P \<le> (10 * acc + k) * P"
    and m2: "(10 * acc + k + 1) * P \<le> (acc + 1) * 10 * P"
    by (simp_all add: mult_right_mono)
  from v have v1: "(10 * acc + k) * P \<le> v" and v2: "v < (10 * acc + k + 1) * P"
    by (simp_all add: P_def)
  from m1 v1 have "acc * 10 * P \<le> v"
    by (rule order_trans)
  moreover from v2 m2 have "v < (acc + 1) * 10 * P"
    by (rule less_le_trans)
  moreover have "(10::int) ^ length (c # cs) = 10 * P"
    by (simp add: P_def)
  ultimately have "acc * 10 ^ length (c # cs) \<le> v" "v < (acc + 1) * 10 ^ length (c # cs)"
    by (simp_all only: mult.assoc)
  with v(1) k show ?case
    by simp
qed

lemma parse_fraction_bounds:
  assumes "list_all is_digit ds" and "ds \<noteq> []"
  shows "\<exists>us. parse_fraction ds = Some us \<and> 0 \<le> us \<and> us < 1000000"
proof -
  have z: "is_digit CHR ''0''"
    by (simp add: is_digit_def digit_val_def digits_def)
  with assms(1) have "list_all is_digit (take 6 (ds @ ''000000''))"
    by (auto simp: list_all_iff dest: in_set_takeD)
  moreover have "length (take 6 (ds @ ''000000'')) = 6"
    by simp
  ultimately obtain v where "digits_val 0 (take 6 (ds @ ''000000'')) = Some v"
    "0 \<le> v" "v < 10 ^ 6"
    using digits_val_bounds[of "take 6 (ds @ ''000000'')" 0] by auto
  with assms(2) show ?thesis
    by (simp add: parse_fraction_def)
qed

lemma parse_time_string:
  assumes "0 \<le> h" and "h \<le> 23" and "0 \<le> mi" and "mi \<le> 59" and "0 \<le> sec" and "sec \<le> 59"
    and "is_fraction fr"
  shows "\<exists>us. parse_time (time_string h mi sec @ fr) =
             Some ((h * 3600 + mi * 60 + sec) * us_per_second + us, None) \<and>
           0 \<le> us \<and> us < 1000000"
proof -
  let ?t = "time_string h mi sec @ fr"
  have h: "number (pad2 h) = Some h" and mi: "number (pad2 mi) = Some mi"
    and sec: "number (pad2 sec) = Some sec"
    using assms by (simp_all add: number_pad2)
  have parts: "take 2 ?t = pad2 h" "take 2 (drop 3 ?t) = pad2 mi" "take 2 (drop 6 ?t) = pad2 sec"
    "drop 8 ?t = fr" "?t ! 2 = CHR '':''" "?t ! 5 = CHR '':''" "8 \<le> length ?t"
    by (simp_all add: time_string_def nth_append)
  show ?thesis
  proof (cases "fr = []")
    case True
    with h mi sec parts assms show ?thesis
      by (simp add: parse_time_def parse_tz_def Let_def)
  next
    case False
    with assms(7) have f: "hd fr = CHR ''.''" "tl fr \<noteq> []" "list_all is_digit (tl fr)"
      by (simp_all add: is_fraction_def)
    from parse_fraction_bounds[OF f(3) f(2)] obtain us where
      us: "parse_fraction (tl fr) = Some us" "0 \<le> us" "us < 1000000"
      by blast
    from f(3) have tw: "\<forall>x\<in>set (tl fr). is_digit x"
      by (simp add: list_all_iff)
    from h mi sec parts assms False f(1,2) us tw show ?thesis
      by (simp add: parse_time_def parse_tz_def Let_def
          takeWhile_eq_all_conv[THEN iffD2] dropWhile_eq_Nil_conv[THEN iffD2])
  qed
qed

lemma div_mod_decomp:
  fixes k :: int
  assumes "0 \<le> r" and "r < k"
  shows "(q * k + r) div k = q" and "(q * k + r) mod k = r"
  using assms by (simp_all add: div_pos_pos_trivial mod_pos_pos_trivial add.commute)

lemma ymd2ord_bounds:
  assumes "1 \<le> y" and "y \<le> 9999" and "1 \<le> m" and "m \<le> 12"
    and "1 \<le> d" and "d \<le> days_in_month y m"
  shows "1 \<le> ymd2ord y m d" and "ymd2ord y m d \<le> 3652059"
proof -
  from day_of_year_bounds[OF assms(3-6)]
  have k: "1 \<le> days_before_month y m + d"
    "days_before_month y m + d \<le> (if is_leap y then 366 else 365)"
    by simp_all
  from assms(1) have "days_before_year 1 \<le> days_before_year y"
    by (rule days_before_year_mono)
  then have "0 \<le> days_before_year y"
    by (simp add: days_before_year_def)
  with k(1) show "1 \<le> ymd2ord y m d"
    by (simp add: ymd2ord_def)
  from assms(2) have "days_before_year (y + 1) \<le> days_before_year 10000"
    by (intro days_before_year_mono) simp
  then have "days_before_year (y + 1) \<le> 3652059"
    by (simp add: days_before_year_def)
  with k(2) show "ymd2ord y m d \<le> 3652059"
    by (simp add: ymd2ord_def days_before_year_Suc split: if_splits)
qed

lemma time_of_day_fields:
  assumes "0 \<le> h" and "h \<le> 23" and "0 \<le> mi" and "mi \<le> 59" and "0 \<le> sec" and "sec \<le> (59::int)"
  shows "(h * 3600 + mi * 60 + sec) div 3600 = h"
    and "(h * 3600 + mi * 60 + sec) div 60 mod 60 = mi"
    and "(h * 3600 + mi * 60 + sec) mod 60 = sec"
proof -
  from assms have a: "0 \<le> mi * 60 + sec" "mi * 60 + sec < 3600"
    by simp_all
  have e1: "h * 3600 + mi * 60 + sec = h * 3600 + (mi * 60 + sec)"
    by simp
  show "(h * 3600 + mi * 60 + sec) div 3600 = h"
    unfolding e1 by (rule div_mod_decomp(1)[OF a])
  have e: "h * 3600 + mi * 60 + sec = (h * 60 + mi) * 60 + sec"
    by simp
  from assms have s: "0 \<le> sec" "sec < 60"
    by simp_all
  show "(h * 3600 + mi * 60 + sec) mod 60 = sec"
    unfolding e by (rule div_mod_decomp(2)[OF s])
  have d: "(h * 3600 + mi * 60 + sec) div 60 = h * 60 + mi"
    unfolding e by (rule div_mod_decomp(1)[OF s])
  from assms have m: "0 \<le> mi" "mi < 60"
    by simp_all
  show "(h * 3600 + mi * 60 + sec) div 60 mod 60 = mi"
    unfolding d by (rule div_mod_decomp(2)[OF m])
qed

lemma ticks_fields:
  assumes "0 \<le> t" and "t < 86400" and "0 \<le> us" and "us < 1000000"
  shows "(D * us_per_day + t * us_per_second + us) div us_per_day = D"
    and "(D * us_per_day + t * us_per_second + us) mod us_per_day div us_per_second = t"
proof -
  from assms have a: "0 \<le> t * 1000000 + us" "t * 1000000 + us < 86400000000"
    by simp_all
  have e: "D * us_per_day + t * us_per_second + us = D * 86400000000 + (t * 1000000 + us)"
    by (simp add: us_per_day_def us_per_second_def)
  show "(D * us_per_day + t * us_per_second + us) div us_per_day = D"
    unfolding e unfolding us_per_day_def by (rule div_mod_decomp(1)[OF a])
  have "(D * us_per_day + t * us_per_second + us) mod us_per_day = t * 1000000 + us"
    unfolding e unfolding us_per_day_def by (rule div_mod_decomp(2)[OF a])
  moreover have "(t * 1000000 + us) div 1000000 = t"
    by (rule div_mod_decomp(1)) (use assms in simp_all)
  ultimately show "(D * us_per_day + t * us_per_second + us) mod us_per_day div us_per_second = t"
    by (simp only: us_per_second_def)
qed

lemma isoparse_local:
  assumes "1 \<le> y" and "y \<le> 9999" and "1 \<le> m" and "m \<le> 12"
    and "1 \<le> d" and "d \<le> days_in_month y m"
    and "0 \<le> h" and "h \<le> 23" and "0 \<le> mi" and "mi \<le> 59" and "0 \<le> sec" and "sec \<le> 59"
    and "is_fraction fr"
  shows "\<exists>us. isoparse (date_string y m d @ ''T'' @ time_string h mi sec @ fr) =
             Inr \<lparr>ticks = (ymd2ord y m d - 1) * us_per_day +
                            (h * 3600 + mi * 60 + sec) * us_per_second + us,
                  tzinfo = None\<rparr> \<and>
           0 \<le> us \<and> us < 1000000 \<and>
           in_range ((ymd2ord y m d - 1) * us_per_day +
                     (h * 3600 + mi * 60 + sec) * us_per_second + us)"
proof -
  let ?s = "date_string y m d @ ''T'' @ time_string h mi sec @ fr"
  let ?t = "h * 3600 + mi * 60 + sec"
  from parse_time_string[OF assms(7-13)] obtain us where
    us: "parse_time (time_string h mi sec @ fr) = Some (?t * us_per_second + us, None)"
      "0 \<le> us" "us < 1000000"
    by blast
  have d: "parse_date (take 10 ?s) = Some (ymd2ord y m d - 1)"
    using parse_date_string[OF assms(1-6)] by simp
  have r: "drop 11 ?s = time_string h mi sec @ fr" "\<not> length ?s \<le> 10"
    by simp_all
  from ymd2ord_bounds[OF assms(1-6)] have o: "0 \<le> ymd2ord y m d - 1" "ymd2ord y m d - 1 \<le> 3652058"
    by simp_all
  from assms(7-12) have t: "0 \<le> ?t" "?t < 86400"
    by simp_all
  with us(2,3) have tt: "0 \<le> ?t * 1000000 + us" "?t * 1000000 + us < 86400000000"
    by simp_all
  from o(1) have "0 \<le> (ymd2ord y m d - 1) * 86400000000"
    by simp
  moreover from o(2) have "(ymd2ord y m d - 1) * 86400000000 \<le> 3652058 * 86400000000"
    by simp
  ultimately have "in_range ((ymd2ord y m d - 1) * us_per_day + ?t * us_per_second + us)"
    using tt by (simp add: in_range_def max_ticks_def us_per_day_def us_per_second_def)
  with d r us show ?thesis
    by (simp add: isoparse_def add.assoc)
qed

lemma strftime_local:
  assumes "1 \<le> y" and "1 \<le> m" and "m \<le> 12" and "1 \<le> d" and "d \<le> days_in_month y m"
    and "0 \<le> h" and "h \<le> 23" and "0 \<le> mi" and "mi \<le> 59" and "0 \<le> sec" and "sec \<le> 59"
    and "0 \<le> us" and "us < 1000000"
  shows "strftime_wb \<lparr>ticks = (ymd2ord y m d - 1) * us_per_day +
                           (h * 3600 + mi * 60 + sec) * us_per_second + us,
                      tzinfo = z\<rparr> =
         date_string y m d @ ''T'' @ time_string h mi sec"
proof -
  let ?t = "h * 3600 + mi * 60 + sec"
  let ?W = "(ymd2ord y m d - 1) * us_per_day + ?t * us_per_second + us"
  from assms(6-11) have t: "0 \<le> ?t" "?t < 86400"
    by simp_all
  from ticks_fields[OF t assms(12,13), of "ymd2ord y m d - 1"]
  have "?W div us_per_day + 1 = ymd2ord y m d" "?W mod us_per_day div us_per_second = ?t"
    by simp_all
  moreover note ord2ymd_ymd2ord[OF assms(1-5)] time_of_day_fields[OF assms(6-11)]
  ultimately show ?thesis
    by (simp add: strftime_wb_def date_string_def time_string_def Let_def)
qed

text \<open>
  C4 (as amended). Take a string \<^verbatim>\<open>YYYY-MM-DDTHH:MM:SS\<close>, with or without a fraction of
  a second, of a date that exists, of the years 1000 to 9999, and of a time of day up to
  23:59:59. The parser reads it as a \<^verbatim>\<open>datetime\<close> without offset. When the UTC instant
  of that wall-clock time in Moscow is in the range of \<^verbatim>\<open>datetime\<close>, and the zone has at
  that instant the offset that it gave to the wall-clock time, \<^verbatim>\<open>parse_wb_dt_to_utc\<close>
  succeeds and \<^verbatim>\<open>format_dt_for_wb\<close> of its result is the string cut after the seconds,
  its first 19 characters. (\<^verbatim>\<open>strftime\<close> pads a year below 1000 with zeros or not,
  depending on the C library; the model pads.)
\<close>

theorem timezone_round_trip:
  assumes "1000 \<le> y" and "y \<le> 9999" and "1 \<le> m" and "m \<le> 12"
    and "1 \<le> d" and "d \<le> days_in_month y m"
    and "0 \<le> h" and "h \<le> 23" and "0 \<le> mi" and "mi \<le> 59" and "0 \<le> sec" and "sec \<le> 59"
    and "is_fraction fr"
    and "s = date_string y m d @ ''T'' @ time_string h mi sec @ fr"
  shows "\<exists>dt. isoparse s = Inr dt \<and> tzinfo dt = None \<and>
           (in_range (ticks dt - utcoffset_wall (MSK cfg) (ticks dt) * 1000000) \<and>
            utcoffset_utc (MSK cfg) (ticks dt - utcoffset_wall (MSK cfg) (ticks dt) * 1000000) =
              utcoffset_wall (MSK cfg) (ticks dt) \<longrightarrow>
            (\<exists>u. parse_wb_dt_to_utc cfg (JStr s) = Inr u \<and>
                 format_dt_for_wb cfg u = Inr (take 19 s)))"
proof -
  from assms(1) have y: "1 \<le> y" by simp
  from isoparse_local[OF y assms(2-13)] obtain us where
    p: "isoparse s = Inr \<lparr>ticks = (ymd2ord y m d - 1) * us_per_day +
                            (h * 3600 + mi * 60 + sec) * us_per_second + us,
                  tzinfo = None\<rparr>"
    and us: "0 \<le> us" "us < 1000000"
    and w: "in_range ((ymd2ord y m d - 1) * us_per_day +
                     (h * 3600 + mi * 60 + sec) * us_per_second + us)"
    unfolding assms(14) by blast
  let ?W = "(ymd2ord y m d - 1) * us_per_day + (h * 3600 + mi * 60 + sec) * us_per_second + us"
  let ?off = "utcoffset_wall (MSK cfg) ?W"
  have f: "strftime_wb \<lparr>ticks = ?W, tzinfo = Some TzMSK\<rparr> = take 19 s"
    using strftime_local[OF y assms(3-12) us, of "Some TzMSK"]
    by (simp add: assms(14))
  have "\<exists>u. parse_wb_dt_to_utc cfg (JStr s) = Inr u \<and> format_dt_for_wb cfg u = Inr (take 19 s)"
    if r: "in_range (?W - ?off * 1000000)" and z: "utcoffset_utc (MSK cfg) (?W - ?off * 1000000) = ?off"
  proof -
    have "parse_wb_dt_to_utc cfg (JStr s) = Inr \<lparr>ticks = ?W - ?off * 1000000, tzinfo = Some TzUTC\<rparr>"
      using r by (simp add: parse_wb_dt_to_utc_def p astimezone_def utcoffset_def fromutc_offset_def
          us_per_second_def Let_def)
    moreover have "format_dt_for_wb cfg \<lparr>ticks = ?W - ?off * 1000000, tzinfo = Some TzUTC\<rparr> =
        Inr (take 19 s)"
      using r z w f by (simp add: format_dt_for_wb_def astimezone_def utcoffset_def
          fromutc_offset_def us_per_second_def Let_def)
    ultimately show ?thesis by blast
  qed
  with p show ?thesis
    by (intro exI[of _ "\<lparr>ticks = ?W, tzinfo = None\<rparr>"]) simp
qed

lemma parse_10_15_30:
  "isoparse ''2024-03-01T10:15:30.123'' = Inr \<lparr>ticks = 63844884930123000, tzinfo = None\<rparr>"
  by code_simp

lemma string_10_15_30:
  "date_string 2024 3 1 @ ''T'' @ time_string 10 15 30 @ ''.123'' = ''2024-03-01T10:15:30.123''"
  by code_simp

lemma fraction_123: "is_fraction ''.123''"
  by code_simp

theorem timezone_round_trip_witness:
  "date_string 2024 3 1 @ ''T'' @ time_string 10 15 30 @ ''.123'' = ''2024-03-01T10:15:30.123'' \<and>
   is_fraction ''.123'' \<and>
   (\<exists>u. parse_wb_dt_to_utc default_config (JStr ''2024-03-01T10:15:30.123'') = Inr u \<and>
        format_dt_for_wb default_config u = Inr ''2024-03-01T10:15:30'')"
proof -
  have "\<exists>dt. isoparse ''2024-03-01T10:15:30.123'' = Inr dt \<and> tzinfo dt = None \<and>
      (in_range (ticks dt - utcoffset_wall (MSK default_config) (ticks dt) * 1000000) \<and>
       utcoffset_utc (MSK default_config)
         (ticks dt - utcoffset_wall (MSK default_config) (ticks dt) * 1000000) =
         utcoffset_wall (MSK default_config) (ticks dt) \<longrightarrow>
       (\<exists>u. parse_wb_dt_to_utc default_config (JStr ''2024-03-01T10:15:30.123'') = Inr u \<and>
            format_dt_for_wb default_config u = Inr (take 19 ''2024-03-01T10:15:30.123'')))"
    by (rule timezone_round_trip [where y = 2024 and m = 3 and d = 1 and h = 10 and mi = 15
          and sec = 30 and fr = "''.123''",
          OF _ _ _ _ _ _ _ _ _ _ _ _ fraction_123 string_10_15_30 [symmetric]])
       (simp_all add: days_in_month_def is_leap_def)
  then have "\<exists>u. parse_wb_dt_to_utc default_config (JStr ''2024-03-01T10:15:30.123'') = Inr u \<and>
      format_dt_for_wb default_config u = Inr (take 19 ''2024-03-01T10:15:30.123'')"
    by (auto simp: parse_10_15_30 default_config_def moscow_utc3_def in_range_def max_ticks_def)
  with string_10_15_30 fraction_123 show ?thesis
    by simp
qed

text \<open>The claim as it was stated fails: \<^verbatim>\<open>0001-01-01T00:00:00\<close>, the string that
  the transformer keeps away from the parser, is a well-formed local time, and its UTC
  instant in Moscow is before the first \<^verbatim>\<open>datetime\<close>: \<^verbatim>\<open>astimezone\<close> raises
  \<^verbatim>\<open>OverflowError\<close> (with any positive offset, the +03:00 of today or the local mean
  time that the zone has for that year).\<close>

theorem sentinel_does_not_round_trip:
  "date_string 1 1 1 @ ''T'' @ time_string 0 0 0 = ''0001-01-01T00:00:00'' \<and>
   isoparse ''0001-01-01T00:00:00'' = Inr \<lparr>ticks = 0, tzinfo = None\<rparr> \<and>
   parse_wb_dt_to_utc default_config (JStr ''0001-01-01T00:00:00'') = Inl OverflowError"
  by code_simp

text \<open>The condition on the zone is not empty: in the hour that the clocks of Moscow
  skipped on 2011-03-27 the round trip returns another time.\<close>

lemma round_trip_fails_in_gap:
  "parse_wb_dt_to_utc (default_config\<lparr>MSK := moscow_2011\<rparr>) (JStr ''2011-03-27T02:30:00'') =
     Inr \<lparr>ticks = 63436779000000000, tzinfo = Some TzUTC\<rparr> \<and>
   format_dt_for_wb (default_config\<lparr>MSK := moscow_2011\<rparr>)
     \<lparr>ticks = 63436779000000000, tzinfo = Some TzUTC\<rparr> = Inr ''2011-03-27T03:30:00''"
  by code_simp

section \<open>The full-day reload: the day and the order of the requests\<close>

lemma digit_char_not_W:
  assumes "0 \<le> k" and "k \<le> 9"
  shows "digit_char k \<noteq> CHR ''W''"
  using assms
proof (cases k rule: digit_cases)
qed (simp_all add: digit_char_def digits_def)

lemma parse_digits_append:
  assumes "digits_val 0 xs = Some v" and "length xs = n"
  shows "parse_digits (xs @ ys) n = Some (v, ys)"
  using assms by (simp add: parse_digits_def)

lemma digits_val_pad4:
  assumes "0 \<le> n" and "n \<le> 9999"
  shows "digits_val 0 (pad4 n) = Some n"
  using number_pad4[OF assms] by (simp add: number_def pad4_def pad2_def)

lemma digits_val_pad2_0:
  assumes "0 \<le> n" and "n \<le> 99"
  shows "digits_val 0 (pad2 n) = Some n"
  using digits_val_pad2[of n 0] assms by simp

lemma fromisoformat_date_string:
  assumes "1 \<le> y" and "y \<le> 9999" and "1 \<le> m" and "m \<le> 12"
    and "1 \<le> d" and "d \<le> days_in_month y m"
  shows "fromisoformat (date_string y m d) = Inr ((y, m, d), (0, 0, 0, 0), None)"
proof -
  from assms(6) days_in_month_le[of y m] have d: "d \<le> 99" by simp
  have s4: "date_string y m d ! 4 = CHR ''-''"
    by (simp add: date_string_def nth_append)
  have "date_string y m d ! 5 = digit_char (m div 10 mod 10)"
    by (simp add: date_string_def nth_append pad2_def)
  then have s5: "date_string y m d ! 5 \<noteq> CHR ''W''"
    by (simp add: digit_char_not_W)
  from s4 s5 have sep: "find_isoformat_datetime_separator (date_string y m d) = Some 10"
    by (simp add: find_isoformat_datetime_separator_def)
  have py: "parse_digits (date_string y m d) 4 = Some (y, ''-'' @ pad2 m @ ''-'' @ pad2 d)"
    unfolding date_string_def
    by (rule parse_digits_append) (use assms in \<open>simp_all add: digits_val_pad4\<close>)
  have pm: "parse_digits (pad2 m @ ''-'' @ pad2 d) 2 = Some (m, ''-'' @ pad2 d)"
    by (rule parse_digits_append) (use assms in \<open>simp_all add: digits_val_pad2_0\<close>)
  have pd: "parse_digits (pad2 d @ []) 2 = Some (d, [])"
    by (rule parse_digits_append) (use assms d in \<open>simp_all add: digits_val_pad2_0\<close>)
  have nw: "take 1 (pad2 m @ ''-'' @ pad2 d) \<noteq> ''W''"
    using digit_char_not_W[of "m div 10 mod 10"] by (simp add: pad2_def)
  have "parse_isoformat_date (date_string y m d) 10 = Some (y, m, d)"
    using py pm pd nw assms
    by (simp add: parse_isoformat_date_def check_date_fields_def)
  with sep show ?thesis
    by (simp add: fromisoformat_def)
qed

lemma delete_msk_day_from_db_cases:
  assumes "delete_msk_day_from_db cfg env day w = (r, w1)"
  shows "(w1 = w \<and> (\<exists>e. r = Inl e \<and> (e = OverflowError \<or> fromisoformat day = Inl e))) \<or>
         (\<exists>y m d time tz. fromisoformat day = Inr ((y, m, d), time, tz) \<and>
            trace w1 = trace w @
              [DbDelete (isoformat cfg (as_utc cfg (msk_midnight y m d)))
                 (isoformat cfg (as_utc cfg
                    ((msk_midnight y m d)\<lparr>ticks := ticks (msk_midnight y m d) + us_per_day\<rparr>)))])"
proof (cases "fromisoformat day")
  case (Inl e)
  with assms show ?thesis by (auto simp: delete_msk_day_from_db_def)
next
  case (Inr f)
  obtain y m d time tz where f: "f = ((y, m, d), time, tz)"
    by (cases f) auto
  let ?s = "msk_midnight y m d"
  let ?e = "?s\<lparr>ticks := ticks ?s + us_per_day\<rparr>"
  have tz: "tzinfo ?s \<noteq> Some TzUTC" "tzinfo ?e \<noteq> Some TzUTC"
    by (simp_all add: msk_midnight_def)
  show ?thesis
  proof (cases "in_range (ticks ?s + us_per_day) \<and> in_range (utc_instant cfg ?s) \<and>
      in_range (utc_instant cfg ?e)")
    case True
    with assms Inr f tz have "trace w1 = trace w @
              [DbDelete (isoformat cfg (as_utc cfg ?s)) (isoformat cfg (as_utc cfg ?e))]"
      by (auto simp: delete_msk_day_from_db_def dt_add_def astimezone_utc as_utc_def emit_def
          msk_midnight_def Let_def split: http_outcome.splits if_splits)
    with Inr f show ?thesis
      by blast
  next
    case False
    with assms Inr f tz have "w1 = w \<and> r = Inl OverflowError"
      by (auto simp: delete_msk_day_from_db_def dt_add_def astimezone_utc as_utc_def
          msk_midnight_def Let_def split: http_outcome.splits if_splits)
    then show ?thesis
      by blast
  qed
qed

lemma full_reload_day_msk_cases:
  assumes "full_reload_day_msk cfg env day w = (r, w')"
  shows "(trace w' = trace w \<and> (\<exists>e. r = Inl e \<and> (e = OverflowError \<or> fromisoformat day = Inl e))) \<or>
         (\<exists>y m d time tz rest. fromisoformat day = Inr ((y, m, d), time, tz) \<and>
            trace w' = trace w @
              DbDelete (isoformat cfg (as_utc cfg (msk_midnight y m d)))
                (isoformat cfg (as_utc cfg
                   ((msk_midnight y m d)\<lparr>ticks := ticks (msk_midnight y m d) + us_per_day\<rparr>))) # rest \<and>
            list_all (\<lambda>e. is_fetch e \<or> is_upsert e) rest)"
proof -
  obtain r1 w1 where d: "delete_msk_day_from_db cfg env day w = (r1, w1)"
    by (cases "delete_msk_day_from_db cfg env day w")
  show ?thesis
  proof (cases r1)
    case (Inl e)
    with d assms have rw: "r = Inl e" "w' = w1"
      by (simp_all add: full_reload_day_msk_def)
    from delete_msk_day_from_db_cases[OF d] Inl rw show ?thesis
      by auto
  next
    case (Inr u)
    from delete_msk_day_from_db_cases[OF d] Inr obtain y m dd time tz where
      dd: "fromisoformat day = Inr ((y, m, dd), time, tz)"
        "trace w1 = trace w @
              [DbDelete (isoformat cfg (as_utc cfg (msk_midnight y m dd)))
                 (isoformat cfg (as_utc cfg
                    ((msk_midnight y m dd)\<lparr>ticks := ticks (msk_midnight y m dd) + us_per_day\<rparr>)))]"
      by auto
    obtain wb_data w2 where f: "wb_request cfg env (JStr day) 1 6 w1 = (wb_data, w2)"
      by (cases "wb_request cfg env (JStr day) 1 6 w1")
    from wb_request_trace[of cfg env "JStr day" 1 6 w1] f obtain evs where
      evs: "trace w2 = trace w1 @ evs" "list_all is_fetch evs"
      by auto
    have "\<exists>evs'. trace w' = trace w2 @ evs' \<and> list_all is_upsert evs'"
    proof (cases "transform_wb_orders cfg wb_data")
      case (Inl e)
      with d Inr f assms have "w' = w2"
        by (simp add: full_reload_day_msk_def)
      then show ?thesis by simp
    next
      case t: (Inr transformed)
      with d Inr f assms have "upsert_orders_to_db cfg env transformed w2 = (r, w')"
        by (simp add: full_reload_day_msk_def)
      with upsert_orders_to_db_trace[of cfg env transformed w2] show ?thesis
        by simp
    qed
    then obtain evs' where evs': "trace w' = trace w2 @ evs'" "list_all is_upsert evs'"
      by blast
    have "list_all (\<lambda>e. is_fetch e \<or> is_upsert e) (evs @ evs')"
      using evs(2) evs'(2) by (auto simp: list_all_iff)
    with dd evs(1) evs'(1) show ?thesis
      by (intro disjI2 exI[of _ y] exI[of _ m] exI[of _ dd] exI[of _ time] exI[of _ tz]
          exI[of _ "evs @ evs'"]) simp
  qed
qed

text \<open>
  C9. In every run of \<^verbatim>\<open>full_reload_day_msk\<close>, either nothing was sent at all (the
  run raised before the delete: a day that \<^verbatim>\<open>datetime.fromisoformat\<close> refuses, or a
  day at the edge of the range of \<^verbatim>\<open>datetime\<close>), or the first request is the range
  delete, and everything after it is a fetch from the feed, a sleep between two
  attempts, or an upsert: the delete comes before any fetch and before any upsert. Its
  two filters are the UTC instants of midnight at the start of the day and of midnight
  at the start of the next day on the clock of Moscow, \<^verbatim>\<open>date=gte.\<close> the first and
  \<^verbatim>\<open>date=lt.\<close> the second. The day is the date that \<^verbatim>\<open>datetime.fromisoformat\<close>
  reads from the string; for a string \<^verbatim>\<open>YYYY-MM-DD\<close> that names an existing date of
  the years 1 to 9999, it is that date, and the run sends nothing only when it raises
  \<^verbatim>\<open>OverflowError\<close>.
\<close>

theorem reload_deletes_first:
  assumes "full_reload_day_msk cfg env day w = (r, w')"
  shows "((trace w' = trace w \<and> (\<exists>e. r = Inl e)) \<or>
          (\<exists>y m d time tz rest. fromisoformat day = Inr ((y, m, d), time, tz) \<and>
             trace w' = trace w @
               DbDelete (isoformat cfg (as_utc cfg (msk_midnight y m d)))
                 (isoformat cfg (as_utc cfg
                    ((msk_midnight y m d)\<lparr>ticks := ticks (msk_midnight y m d) + us_per_day\<rparr>))) # rest \<and>
             list_all (\<lambda>e. is_fetch e \<or> is_upsert e) rest)) \<and>
         (\<forall>y m d. day = date_string y m d \<and> 1 \<le> y \<and> y \<le> 9999 \<and> 1 \<le> m \<and> m \<le> 12 \<and>
              1 \<le> d \<and> d \<le> days_in_month y m \<longrightarrow>
            (trace w' = trace w \<and> r = Inl OverflowError) \<or>
            (\<exists>rest.
               trace w' = trace w @
                 DbDelete (isoformat cfg (as_utc cfg (msk_midnight y m d)))
                   (isoformat cfg (as_utc cfg
                      ((msk_midnight y m d)\<lparr>ticks := ticks (msk_midnight y m d) + us_per_day\<rparr>))) # rest \<and>
               list_all (\<lambda>e. is_fetch e \<or> is_upsert e) rest))"
proof (intro conjI allI impI)
  from full_reload_day_msk_cases[OF assms]
  show "(trace w' = trace w \<and> (\<exists>e. r = Inl e)) \<or>
          (\<exists>y m d time tz rest. fromisoformat day = Inr ((y, m, d), time, tz) \<and>
             trace w' = trace w @
               DbDelete (isoformat cfg (as_utc cfg (msk_midnight y m d)))
                 (isoformat cfg (as_utc cfg
                    ((msk_midnight y m d)\<lparr>ticks := ticks (msk_midnight y m d) + us_per_day\<rparr>))) # rest \<and>
             list_all (\<lambda>e. is_fetch e \<or> is_upsert e) rest)"
    by blast
next
  fix y m d
  assume a: "day = date_string y m d \<and> 1 \<le> y \<and> y \<le> 9999 \<and> 1 \<le> m \<and> m \<le> 12 \<and>
              1 \<le> d \<and> d \<le> days_in_month y m"
  then have p: "fromisoformat day = Inr ((y, m, d), (0, 0, 0, 0), None)"
    by (simp add: fromisoformat_date_string)
  from full_reload_day_msk_cases[OF assms] p
  show "(trace w' = trace w \<and> r = Inl OverflowError) \<or>
            (\<exists>rest.
               trace w' = trace w @
                 DbDelete (isoformat cfg (as_utc cfg (msk_midnight y m d)))
                   (isoformat cfg (as_utc cfg
                      ((msk_midnight y m d)\<lparr>ticks := ticks (msk_midnight y m d) + us_per_day\<rparr>))) # rest \<and>
               list_all (\<lambda>e. is_fetch e \<or> is_upsert e) rest)"
    by auto
qed

lemma reload_2024_03_01:
  "full_reload_day_msk default_config env_one_page ''2024-03-01'' world0 =
     (Inr (),
      \<lparr>wb_calls = 1, db_calls = 2,
       trace = [DbDelete ''2024-02-29T21:00:00+00:00'' ''2024-03-01T21:00:00+00:00'',
                WbGet (JStr ''2024-03-01'') 1,
                DbUpsert [row_a1]]\<rparr>)"
  by code_simp

lemma date_string_2024_03_01: "date_string 2024 3 1 = ''2024-03-01''"
  by code_simp

lemma days_in_march_2024: "days_in_month 2024 3 = 31"
  by code_simp

theorem reload_deletes_first_witness:
  "full_reload_day_msk default_config env_one_page ''2024-03-01'' world0 =
     (Inr (),
      \<lparr>wb_calls = 1, db_calls = 2,
       trace = [DbDelete ''2024-02-29T21:00:00+00:00'' ''2024-03-01T21:00:00+00:00'',
                WbGet (JStr ''2024-03-01'') 1,
                DbUpsert [row_a1]]\<rparr>) \<and>
   ''2024-03-01'' = date_string 2024 3 1 \<and>
   isoformat default_config (as_utc default_config (msk_midnight 2024 3 1)) =
     ''2024-02-29T21:00:00+00:00'' \<and>
   isoformat default_config (as_utc default_config
     ((msk_midnight 2024 3 1)\<lparr>ticks := ticks (msk_midnight 2024 3 1) + us_per_day\<rparr>)) =
     ''2024-03-01T21:00:00+00:00'' \<and>
   list_all (\<lambda>e. is_fetch e \<or> is_upsert e) [WbGet (JStr ''2024-03-01'') 1, DbUpsert [row_a1]]"
proof -
  have "''2024-03-01'' = date_string 2024 3 1 \<and> (1::int) \<le> 2024 \<and> (2024::int) \<le> 9999 \<and>
      (1::int) \<le> 3 \<and> (3::int) \<le> 12 \<and> (1::int) \<le> 1 \<and> 1 \<le> days_in_month 2024 3"
    by (simp add: date_string_2024_03_01 days_in_march_2024)
  from reload_deletes_first [OF reload_2024_03_01, THEN conjunct2, rule_format, OF this]
  have "isoformat default_config (as_utc default_config (msk_midnight 2024 3 1)) =
     ''2024-02-29T21:00:00+00:00'' \<and>
   isoformat default_config (as_utc default_config
     ((msk_midnight 2024 3 1)\<lparr>ticks := ticks (msk_midnight 2024 3 1) + us_per_day\<rparr>)) =
     ''2024-03-01T21:00:00+00:00''"
    by (auto simp: world0_def)
  with reload_2024_03_01 date_string_2024_03_01 show ?thesis
    by simp
qed

text \<open>Days in other shapes that \<^verbatim>\<open>datetime.fromisoformat\<close> reads, and strings that it
  refuses; the reload of a day in the basic format.\<close>

lemma fromisoformat_other_days:
  "fromisoformat ''20240301'' = Inr ((2024, 3, 1), (0, 0, 0, 0), None) \<and>
   fromisoformat ''2024-W09-5'' = Inr ((2024, 3, 1), (0, 0, 0, 0), None) \<and>
   fromisoformat ''2024-03-01T10:15'' = Inr ((2024, 3, 1), (10, 15, 0, 0), None) \<and>
   fromisoformat ''2024-03-01T24:00:00'' = Inl ValueError \<and>
   fromisoformat ''2024-03'' = Inl ValueError \<and>
   fromisoformat ''2024-02-30'' = Inl ValueError"
  by code_simp

lemma reload_basic_format:
  "full_reload_day_msk default_config env_one_page ''20240301'' world0 =
     (Inr (),
      \<lparr>wb_calls = 1, db_calls = 2,
       trace = [DbDelete ''2024-02-29T21:00:00+00:00'' ''2024-03-01T21:00:00+00:00'',
                WbGet (JStr ''20240301'') 1,
                DbUpsert [row_a1]]\<rparr>)"
  by code_simp

end
